theory Spec2Isabelle
  imports Complex_Main "HOL-Library.List_Lexorder" "HOL-Library.Char_ord"
begin

section \<open>Go preliminaries\<close>

text \<open>
  Go's \<^verbatim>\<open>int\<close> is a 64-bit two's complement integer on the platforms the scraper is built
  for. Arithmetic on values that come from the caller (job fields, configuration) is
  modelled on \<^typ>\<open>int\<close> with the wrap-around written out; counters that start at 0 or 1
  and grow by one per write (\<^verbatim>\<open>currentCount\<close>, \<^verbatim>\<open>fileIndex\<close>, \<^verbatim>\<open>totalRows\<close>) are plain
  \<^typ>\<open>int\<close>, since no run performs \<open>2^63\<close> writes. Strings and byte slices are
  \<^typ>\<open>string\<close>, that is lists of 8-bit characters.
\<close>

definition wrap64 :: "int \<Rightarrow> int" where
  "wrap64 x = (x + 2 ^ 63) mod 2 ^ 64 - 2 ^ 63"

definition isInt64 :: "int \<Rightarrow> bool" where
  "isInt64 x = (- (2 ^ 63) \<le> x \<and> x < 2 ^ 63)"

text \<open>Go's integer division truncates towards zero.\<close>

definition goDiv :: "int \<Rightarrow> int \<Rightarrow> int" where
  "goDiv a b =
     (let q = \<bar>a\<bar> div \<bar>b\<bar> in if (a < 0) = (b < 0) then q else - q)"

text \<open>Go's remainder has the sign of the dividend: \<^verbatim>\<open>a % b = a - (a / b) * b\<close>.\<close>

definition goMod :: "int \<Rightarrow> int \<Rightarrow> int" where
  "goMod a b = a - goDiv a b * b"

text \<open>
  A \<^verbatim>\<open>float64\<close> is a finite number, a NaN or an infinity. The code modelled here only
  compares such values and hands them on, so a finite one is carried as the real number
  it stands for (both zeros are the real 0, which Go's comparisons do not tell apart).
  The comparisons are those of the language: every comparison with a NaN is false.
\<close>

datatype float64 = Finite real | NaN | PosInf | NegInf

fun f64_le :: "float64 \<Rightarrow> float64 \<Rightarrow> bool" where
  "f64_le (Finite a) (Finite b) = (a \<le> b)"
| "f64_le (Finite a) PosInf = True"
| "f64_le (Finite a) NegInf = False"
| "f64_le PosInf PosInf = True"
| "f64_le PosInf (Finite b) = False"
| "f64_le PosInf NegInf = False"
| "f64_le NegInf (Finite b) = True"
| "f64_le NegInf PosInf = True"
| "f64_le NegInf NegInf = True"
| "f64_le NaN y = False"
| "f64_le x NaN = False"

definition f64_eq :: "float64 \<Rightarrow> float64 \<Rightarrow> bool" where
  "f64_eq x y = (x \<noteq> NaN \<and> y \<noteq> NaN \<and> x = y)"

definition f64_lt :: "float64 \<Rightarrow> float64 \<Rightarrow> bool" where
  "f64_lt x y = (f64_le x y \<and> \<not> f64_eq x y)"

text \<open>
  Errors are values. \<^verbatim>\<open>fmt.Errorf\<close> with \<^verbatim>\<open>%w\<close> wraps an error; \<^verbatim>\<open>errors.Is\<close> walks the
  chain of wrapped errors. The two context errors are the sentinels of package
  \<^verbatim>\<open>context\<close>.
\<close>

datatype goerror =
    DeadlineExceeded
  | Canceled
  | Errorf string
  | Wrapf string goerror

fun errorsIs :: "goerror \<Rightarrow> goerror \<Rightarrow> bool" where
  "errorsIs (Wrapf msg e) target = (Wrapf msg e = target \<or> errorsIs e target)"
| "errorsIs e target = (e = target)"

section \<open>The paginating search job (gmaps/searchjob.go)\<close>

definition resultsPerPage :: int where
  "resultsPerPage = 20"

definition maxPaginationPages :: int where
  "maxPaginationPages = 6"

type_synonym ref = nat

record MapLocation =
  Lat :: float64
  Lon :: float64
  ZoomLvl :: float64
  Radius :: float64

record MapSearchParams =
  Location :: MapLocation
  Query :: string
  ViewportW :: int
  ViewportH :: int
  Hl :: string

text \<open>
  The URL parameters are a \<^verbatim>\<open>map[string]string\<close>. The \<^verbatim>\<open>pb\<close> parameter is a format
  string filled with six arguments; the model keeps the arguments instead of the
  formatted text (the last one is the pagination offset, after \<^verbatim>\<open>!7i20!8i\<close>).
\<close>

datatype paramValue =
    Lit string
  | PbFormat float64 float64 int int float64 int

record ScrapemateJob =
  ID :: string
  Method :: string
  URL :: string
  URLParams :: "(string \<times> paramValue) list"
  MaxRetries :: int
  Priority :: int

text \<open>
  \<^verbatim>\<open>params\<close> is a pointer, and \<^verbatim>\<open>ExitMonitor\<close> and \<^verbatim>\<open>Deduper\<close> are interface values
  that may be nil: the job holds references into a heap, so that sharing between a job
  and its child is visible.
\<close>

record SearchJob =
  Job :: ScrapemateJob
  params :: ref
  ExitMonitor :: "ref option"
  Deduper :: "ref option"
  SearchDelay :: int
  offset :: int
  pageNum :: int
  maxPages :: int

text \<open>The fields of \<^verbatim>\<open>gmaps.Entry\<close> that \<^verbatim>\<open>Process\<close> reads.\<close>

record Entry =
  Cid :: string
  Title :: string
  Address :: string

text \<open>
  The exit monitor is an interface of package \<^verbatim>\<open>exiter\<close>; a monitor is modelled by the
  log of the calls it has received, oldest first.
\<close>

datatype exiterCall =
    IncrPlacesFound int
  | IncrSeedCompleted int
  | IncrPlacesCompleted int

record 'd heap =
  paramsOf :: "ref \<Rightarrow> MapSearchParams"
  dedupOf :: "ref \<Rightarrow> 'd"
  exiterLog :: "ref \<Rightarrow> exiterCall list"

text \<open>
  Functions that \<^verbatim>\<open>Process\<close> calls and that live in other files: the decoder
  \<^verbatim>\<open>ParseSearchResults\<close>, the radius filter \<^verbatim>\<open>filterAndSortEntriesWithinRadius\<close>, and the
  deduper's \<^verbatim>\<open>AddIfNotExists\<close> (acting on a deduper state of type \<^typ>\<open>'d\<close>). They are
  parameters of the model.
\<close>

record 'd deps =
  ParseSearchResults :: "string \<Rightarrow> goerror + Entry list"
  filterAndSortEntriesWithinRadius :: "Entry list \<Rightarrow> float64 \<Rightarrow> float64 \<Rightarrow> float64 \<Rightarrow> Entry list"
  AddIfNotExists :: "'d \<Rightarrow> string \<Rightarrow> bool \<times> 'd"

text \<open>\<^verbatim>\<open>bytes.IndexByte(data, '\n')\<close>: the index of the first newline, or \<open>-1\<close>.\<close>

fun indexByte :: "string \<Rightarrow> char \<Rightarrow> int" where
  "indexByte [] c = - 1"
| "indexByte (x # xs) c =
     (if x = c then 0 else (let i = indexByte xs c in if i = - 1 then - 1 else i + 1))"

definition removeFirstLine :: "string \<Rightarrow> string" where
  "removeFirstLine data =
     (if length data = 0 then data
      else (let index = indexByte data (CHR 0x0A) in
        if index = - 1 then []
        else drop (nat (index + 1)) data))"

text \<open>
  \<^verbatim>\<open>buildGoogleMapsParams\<close> writes the viewport into the shared parameters (through the
  pointer) and returns the URL parameter map.
\<close>

definition buildGoogleMapsParams ::
  "ref \<Rightarrow> int \<Rightarrow> 'd heap \<Rightarrow> (string \<times> paramValue) list \<times> 'd heap" where
  "buildGoogleMapsParams p off h =
     (let ps = (paramsOf h p)\<lparr>ViewportH := 800, ViewportW := 600\<rparr>;
          h' = h\<lparr>paramsOf := (paramsOf h)(p := ps)\<rparr>;
          ans = [(''tbm'', Lit ''map''), (''authuser'', Lit ''0''),
                 (''hl'', Lit (Hl ps)), (''q'', Lit (Query ps))];
          pb = PbFormat (Lon (Location ps)) (Lat (Location ps)) (ViewportW ps)
                 (ViewportH ps) (ZoomLvl (Location ps)) off
      in (ans @ [(''pb'', pb)], h'))"

text \<open>The functional options of \<^verbatim>\<open>NewSearchJob\<close>.\<close>

datatype SearchJobOptions =
    WithSearchJobExitMonitor "ref option"
  | WithSearchJobDelay int
  | WithSearchJobDeduper "ref option"
  | WithSearchJobMaxPages int

fun applyOption :: "SearchJobOptions \<Rightarrow> SearchJob \<Rightarrow> SearchJob" where
  "applyOption (WithSearchJobExitMonitor exitMonitor) j = j\<lparr>ExitMonitor := exitMonitor\<rparr>"
| "applyOption (WithSearchJobDelay d) j = j\<lparr>SearchDelay := d\<rparr>"
| "applyOption (WithSearchJobDeduper d) j = j\<lparr>Deduper := d\<rparr>"
| "applyOption (WithSearchJobMaxPages n) j =
     (if n > 0 \<and> n \<le> maxPaginationPages then j\<lparr>maxPages := n\<rparr> else j)"

text \<open>
  \<^verbatim>\<open>NewSearchJob\<close>. The identifier comes from \<^verbatim>\<open>uuid.New()\<close> and the default priority is
  the constant \<^verbatim>\<open>scrapemate.PriorityMedium\<close> of the dispatch library: both are arguments.
\<close>

definition NewSearchJob ::
  "int \<Rightarrow> string \<Rightarrow> ref \<Rightarrow> SearchJobOptions list \<Rightarrow> 'd heap \<Rightarrow> SearchJob \<times> 'd heap" where
  "NewSearchJob PriorityMedium uuid p opts h =
     (let job0 = \<lparr>Job = \<lparr>ID = uuid, Method = ''GET'', URL = ''https://maps.google.com/search'',
                          URLParams = [], MaxRetries = 1, Priority = PriorityMedium\<rparr>,
                   params = p, ExitMonitor = None, Deduper = None, SearchDelay = 0,
                   offset = 0, pageNum = 0, maxPages = maxPaginationPages\<rparr>;
          job1 = foldl (\<lambda>j opt. applyOption opt j) job0 opts;
          (urlParams, h') = buildGoogleMapsParams p (offset job1) h
      in (job1\<lparr>Job := (Job job1)\<lparr>URLParams := urlParams\<rparr>\<rparr>, h'))"

text \<open>The deduplication loop of \<^verbatim>\<open>Process\<close> (lines 139 to 152).\<close>

definition dedupKey :: "Entry \<Rightarrow> string" where
  "dedupKey e = (if Cid e = [] then Title e @ ''|'' @ Address e else Cid e)"

fun dedupLoop :: "('d \<Rightarrow> string \<Rightarrow> bool \<times> 'd) \<Rightarrow> 'd \<Rightarrow> Entry list \<Rightarrow> Entry list \<times> 'd" where
  "dedupLoop add d [] = ([], d)"
| "dedupLoop add d (e # es) =
     (let key = dedupKey e in
      if key \<noteq> [] then
        (let (admitted, d') = add d key;
             (unique, d'') = dedupLoop add d' es
         in (if admitted then e # unique else unique, d''))
      else dedupLoop add d es)"

definition callExiter :: "ref option \<Rightarrow> exiterCall \<Rightarrow> 'd heap \<Rightarrow> 'd heap" where
  "callExiter m c h =
     (case m of
        None \<Rightarrow> h
      | Some r \<Rightarrow> h\<lparr>exiterLog := (exiterLog h)(r := exiterLog h r @ [c])\<rparr>)"

text \<open>The pagination step of \<^verbatim>\<open>Process\<close> (lines 154 to 182).\<close>

definition nextPageJobs ::
  "string \<Rightarrow> SearchJob \<Rightarrow> int \<Rightarrow> 'd heap \<Rightarrow> SearchJob list \<times> 'd heap" where
  "nextPageJobs uuid j rawCount h =
     (let nextPage = wrap64 (pageNum j + 1) in
      if rawCount \<ge> resultsPerPage \<and> nextPage < maxPages j then
        (let nextOffset = wrap64 (nextPage * resultsPerPage);
             (urlParams, h1) = buildGoogleMapsParams (params j) nextOffset h;
             nextJob = \<lparr>Job = \<lparr>ID = uuid, Method = ''GET'',
                                 URL = ''https://maps.google.com/search'',
                                 URLParams = urlParams, MaxRetries = 1,
                                 Priority = wrap64 (Priority (Job j) + 1)\<rparr>,
                        params = params j, ExitMonitor = ExitMonitor j,
                        Deduper = Deduper j, SearchDelay = SearchDelay j,
                        offset = nextOffset, pageNum = nextPage, maxPages = maxPages j\<rparr>
         in ([nextJob], callExiter (ExitMonitor j) (IncrPlacesFound 1) h1))
      else ([], h))"

text \<open>The report to the exit monitor (lines 184 to 194).\<close>

definition reportPage :: "SearchJob \<Rightarrow> int \<Rightarrow> 'd heap \<Rightarrow> 'd heap" where
  "reportPage j n h =
     (let h1 = (if pageNum j = 0 then callExiter (ExitMonitor j) (IncrSeedCompleted 1) h
                else callExiter (ExitMonitor j) (IncrPlacesCompleted 1) h);
          h2 = callExiter (ExitMonitor j) (IncrPlacesFound n) h1
      in callExiter (ExitMonitor j) (IncrPlacesCompleted n) h2)"

text \<open>
  The entries of a page that survive the radius filter and the deduper (lines 132 to
  152), with the heap after the deduper's admissions.
\<close>

definition survivors ::
  "'d deps \<Rightarrow> SearchJob \<Rightarrow> Entry list \<Rightarrow> 'd heap \<Rightarrow> Entry list \<times> 'd heap" where
  "survivors deps j decoded h =
     (let loc = Location (paramsOf h (params j));
          filtered = filterAndSortEntriesWithinRadius deps decoded
                       (Lat loc) (Lon loc) (Radius loc)
      in case Deduper j of
           None \<Rightarrow> (filtered, h)
         | Some d \<Rightarrow>
            (let (unique, s) = dedupLoop (AddIfNotExists deps) (dedupOf h d) filtered
             in (unique, h\<lparr>dedupOf := (dedupOf h)(d := s)\<rparr>)))"

text \<open>
  \<^verbatim>\<open>SearchJob.Process\<close>. The randomised sleep and the deferred clearing of the response
  have no effect on the results and are left out. The result is the error, or the
  surviving entries with the child jobs, together with the heap after the call.
\<close>

definition Process ::
  "'d deps \<Rightarrow> string \<Rightarrow> SearchJob \<Rightarrow> string \<Rightarrow> 'd heap
     \<Rightarrow> (goerror + Entry list \<times> SearchJob list) \<times> 'd heap" where
  "Process deps uuid j respBody h =
     (let body = removeFirstLine respBody in
      if length body = 0 then (Inl (Errorf ''empty response body''), h)
      else
        (case ParseSearchResults deps body of
           Inl err \<Rightarrow> (Inl (Wrapf ''failed to parse search results: '' err), h)
         | Inr decoded \<Rightarrow>
            (let rawCount = int (length decoded);
                 (entries, h1) = survivors deps j decoded h;
                 (nextJobs, h2) = nextPageJobs uuid j rawCount h1;
                 h3 = (if ExitMonitor j \<noteq> None
                       then reportPage j (int (length entries)) h2 else h2)
             in (Inr (entries, nextJobs), h3))))"

text \<open>
  The chain of pages of one query, as the dispatch engine drives it: each job is
  processed with the response fetched for it (and a fresh identifier for a child);
  the child, when there is one, is processed next. Other jobs of the run share the
  heap and run in between: each step comes with the change they make to the heap
  before the page is processed. The result lists the processed pages with their
  response bodies.
\<close>

fun paginate ::
  "'d deps \<Rightarrow> SearchJob \<Rightarrow> (string \<times> string \<times> ('d heap \<Rightarrow> 'd heap)) list \<Rightarrow> 'd heap
     \<Rightarrow> (SearchJob \<times> string) list" where
  "paginate deps j [] h = []"
| "paginate deps j ((uuid, respBody, others) # rest) h =
     (case Process deps uuid j respBody (others h) of
        (Inr (entries, child # siblings), h') \<Rightarrow> (j, respBody) # paginate deps child rest h'
      | (r, h') \<Rightarrow> [(j, respBody)])"

text \<open>The number of entries decoded from a response (\<^verbatim>\<open>rawCount\<close>), 0 when decoding fails.\<close>

definition rawCountOf :: "'d deps \<Rightarrow> string \<Rightarrow> nat" where
  "rawCountOf deps respBody =
     (case ParseSearchResults deps (removeFirstLine respBody) of
        Inl err \<Rightarrow> 0
      | Inr decoded \<Rightarrow> length decoded)"

text \<open>
  The invariant of the pagination fields of every job of a chain: the page number is
  non-negative and below the page limit, the page limit is at most the hard cap, and the
  offset is the page number times the page size.
\<close>

definition validJob :: "SearchJob \<Rightarrow> bool" where
  "validJob j =
     (0 \<le> pageNum j \<and> pageNum j < maxPages j \<and> maxPages j \<le> maxPaginationPages \<and>
      offset j = pageNum j * resultsPerPage)"

subsection \<open>Concrete instances for running the model\<close>

text \<open>
  Modelled from the spec: the Deduplicator (package \<^verbatim>\<open>deduper\<close> is not among the sources),
  "admit(key) -> bool, true iff not previously present for this run (and now recorded)".
  The state is the list of recorded keys.
\<close>

definition admitKey :: "string list \<Rightarrow> string \<Rightarrow> bool \<times> string list" where
  "admitKey seen key = (if key \<in> set seen then (False, seen) else (True, key # seen))"

text \<open>
  A stand-in decoder for examples: a body decodes to one entry per byte, the entry's
  identifier being the byte; the body \<^verbatim>\<open>bad\<close> does not decode. The stand-in radius filter
  keeps every entry.
\<close>

definition exampleDeps :: "(string list) deps" where
  "exampleDeps =
     \<lparr>ParseSearchResults =
        (\<lambda>body. if body = ''bad'' then Inl (Errorf ''unexpected end of JSON input'')
                else Inr (map (\<lambda>c. \<lparr>Cid = [c], Title = ''title'', Address = ''address''\<rparr>) body)),
      filterAndSortEntriesWithinRadius = (\<lambda>es lat lon radius. es),
      AddIfNotExists = admitKey\<rparr>"

definition exampleParams :: MapSearchParams where
  "exampleParams =
     \<lparr>Location = \<lparr>Lat = Finite 40, Lon = Finite (- 73), ZoomLvl = Finite 15,
                  Radius = Finite 10000\<rparr>,
      Query = ''coffee'', ViewportW = 1920, ViewportH = 450, Hl = ''en''\<rparr>"

definition exampleHeap :: "(string list) heap" where
  "exampleHeap =
     \<lparr>paramsOf = (\<lambda>r. exampleParams), dedupOf = (\<lambda>r. []), exiterLog = (\<lambda>r. [])\<rparr>"

text \<open>A seed job as \<^verbatim>\<open>CreateSeedJobs\<close> builds it in fast mode, with depth 2.\<close>

definition exampleSeed :: SearchJob where
  "exampleSeed =
     fst (NewSearchJob 1 ''seed'' 0
            [WithSearchJobDeduper (Some 0), WithSearchJobExitMonitor (Some 0),
             WithSearchJobMaxPages 2] exampleHeap)"

text \<open>A response: the one-line prefix, then a payload that decodes to 20 entries.\<close>

definition fullPage :: string where
  "fullPage = ''xssi'' @ [CHR 0x0A] @ ''abcdefghijklmnopqrst''"

definition shortPage :: string where
  "shortPage = ''xssi'' @ [CHR 0x0A] @ ''abc''"

text \<open>
  A second stand-in with a radius filter that drops entries: those with the identifier
  \<^verbatim>\<open>z\<close> count as lying outside the radius. The page \<^verbatim>\<open>mixedPage\<close> decodes to 20 entries,
  of which one lies outside the radius and two have the same identifier; in the heap
  \<^verbatim>\<open>seenHeap\<close> the deduper has already recorded the key \<^verbatim>\<open>b\<close>.
\<close>

definition exampleDepsRadius :: "(string list) deps" where
  "exampleDepsRadius =
     exampleDeps\<lparr>filterAndSortEntriesWithinRadius :=
                   (\<lambda>es lat lon radius. filter (\<lambda>e. Cid e \<noteq> ''z'') es)\<rparr>"

definition mixedPage :: string where
  "mixedPage = ''xssi'' @ [CHR 0x0A] @ ''aabzcdefghijklmnopqr''"

definition seenHeap :: "(string list) heap" where
  "seenHeap = exampleHeap\<lparr>dedupOf := (\<lambda>r. [''b''])\<rparr>"

text \<open>
  A seed job with the page limit 1, and a response whose payload decodes to 21 entries,
  one more than a page asks for.
\<close>

definition exampleSingle :: SearchJob where
  "exampleSingle = fst (NewSearchJob 1 ''seed'' 0 [WithSearchJobMaxPages 1] exampleHeap)"

definition longPage :: string where
  "longPage = ''xssi'' @ [CHR 0x0A] @ ''abcdefghijklmnopqrstu''"

section \<open>Shard files and the merger (web runner)\<close>

text \<open>
  \<^verbatim>\<open>fmt.Sprintf("%d", i)\<close>: the decimal digits of an integer, with a minus sign when it is
  negative.
\<close>

definition digitChar :: "nat \<Rightarrow> char" where
  "digitChar d = char_of (48 + d)"

function itoa :: "nat \<Rightarrow> string" where
  "itoa n = (if n < 10 then [digitChar n] else itoa (n div 10) @ [digitChar (n mod 10)])"
  by pat_completeness auto
termination
  by (relation "measure (\<lambda>n. n)") auto

definition formatInt :: "int \<Rightarrow> string" where
  "formatInt i = (if i < 0 then CHR ''-'' # itoa (nat (- i)) else itoa (nat i))"

text \<open>
  The name of a shard, \<^verbatim>\<open>fmt.Sprintf("%s_%d.csv", w.baseFileName, w.fileIndex)\<close>. The data
  folder is modelled as one flat directory and files are named relative to it, so the
  base name of a run's writer is the run's identifier.
\<close>

definition shardName :: "string \<Rightarrow> int \<Rightarrow> string" where
  "shardName baseFileName fileIndex = baseFileName @ ''_'' @ formatInt fileIndex @ ''.csv''"

text \<open>
  What the merger sees of a file is what \<^verbatim>\<open>readCSVWithBOM\<close> makes of it: the records
  of the file after the byte-order mark (rows of fields), or an error when the bytes
  are not CSV of a constant number of fields. The CSV reader and writer are the
  standard library's; a file is modelled by its records. The data folder is the list
  of its files, in directory order.
\<close>

datatype csvFile =
    Records "string list list"
  | Malformed

type_synonym folder = "(string \<times> csvFile) list"

definition writeFile :: "string \<Rightarrow> csvFile \<Rightarrow> folder \<Rightarrow> folder" where
  "writeFile path f fs = (path, f) # filter (\<lambda>(name, g). name \<noteq> path) fs"

definition removeFile :: "string \<Rightarrow> folder \<Rightarrow> folder" where
  "removeFile path fs = filter (\<lambda>(name, g). name \<noteq> path) fs"

text \<open>
  \<^verbatim>\<open>filepath.Glob(jobID + "_*.csv")\<close> in the data folder: the names that start with the
  identifier and an underscore and end in \<^verbatim>\<open>.csv\<close>. Run identifiers are UUIDs: they
  hold none of the pattern characters \<^verbatim>\<open>* ? [ \\<close>, so the identifier matches itself only
  and the pattern is never malformed (the only error of \<^verbatim>\<open>Glob\<close>).
\<close>

definition matchesPattern :: "string \<Rightarrow> string \<Rightarrow> bool" where
  "matchesPattern jobID name =
     (length jobID + 5 \<le> length name \<and>
      take (length jobID + 1) name = jobID @ ''_'' \<and>
      drop (length name - 4) name = ''.csv'')"

definition glob :: "folder \<Rightarrow> string \<Rightarrow> string list" where
  "glob fs jobID = filter (matchesPattern jobID) (map fst fs)"

definition readCSVWithBOM :: "folder \<Rightarrow> string \<Rightarrow> goerror + string list list" where
  "readCSVWithBOM fs filePath =
     (case map_of fs filePath of
        None \<Rightarrow> Inl (Errorf ''open: no such file or directory'')
      | Some Malformed \<Rightarrow> Inl (Errorf ''record on line: wrong number of fields'')
      | Some (Records records) \<Rightarrow> Inr records)"

text \<open>
  The loop over the sorted matches (lines 368 to 387). The state is the records
  written to the output so far, \<^verbatim>\<open>totalRows\<close> and \<^verbatim>\<open>headerWritten\<close>. The results of
  \<^verbatim>\<open>writer.Write\<close> are not looked at by the code; the model takes every write to reach
  the file.
\<close>

fun mergeLoop ::
  "folder \<Rightarrow> string list \<Rightarrow> string list list \<times> int \<times> bool \<Rightarrow> string list list \<times> int \<times> bool" where
  "mergeLoop fs [] st = st"
| "mergeLoop fs (m # matches) (out, totalRows, headerWritten) =
     (case readCSVWithBOM fs m of
        Inl readErr \<Rightarrow> mergeLoop fs matches (out, totalRows, headerWritten)
      | Inr [] \<Rightarrow> mergeLoop fs matches (out, totalRows, headerWritten)
      | Inr (first # others) \<Rightarrow>
          mergeLoop fs matches
            ((if \<not> headerWritten then out @ [first] else out) @ others,
             totalRows + int (length others), True))"

text \<open>
  \<^verbatim>\<open>mergeCSVFiles\<close>. \<^verbatim>\<open>sort.Strings\<close> orders the matches as strings, byte by byte.
  Whether \<^verbatim>\<open>os.Create\<close> succeeds is the file system's answer, the argument
  \<open>creatable\<close>. The result is the row count and the error, and the folder afterwards.
\<close>

definition mergeCSVFiles ::
  "(string \<Rightarrow> bool) \<Rightarrow> folder \<Rightarrow> string \<Rightarrow> (int \<times> goerror option) \<times> folder" where
  "mergeCSVFiles creatable fs jobID =
     (let matches = glob fs jobID in
      if length matches = 0 then ((0, None), fs)
      else
        (let sorted = sort matches;
             outputPath = jobID @ ''.csv''
         in if \<not> creatable outputPath
            then ((0, Some (Wrapf ''failed to create merged file: ''
                              (Errorf ''open: permission denied''))), fs)
            else
              (let fs1 = writeFile outputPath (Records []) fs;
                   (out, totalRows, headerWritten) = mergeLoop fs1 sorted ([], 0, False);
                   fs2 = writeFile outputPath (Records out) fs1;
                   fs3 = foldl (\<lambda>f m. removeFile m f) fs2 sorted
               in ((totalRows, None), fs3))))"

text \<open>
  A folder with the shards 1 to \<open>k\<close> of a run, each holding a header row and one data
  row that names the shard.
\<close>

definition exampleShards :: "string \<Rightarrow> nat \<Rightarrow> folder" where
  "exampleShards jobID k =
     map (\<lambda>i. (shardName jobID (int i), Records [[''title''], [itoa i]])) [1..<Suc k]"

section \<open>The scheduling loop (web runner): scrapeJob\<close>

text \<open>
  The run states of package \<^verbatim>\<open>web\<close>, and the fields of \<^verbatim>\<open>web.Job\<close> and its \<^verbatim>\<open>Data\<close> that
  decide what \<^verbatim>\<open>scrapeJob\<close> does. \<^verbatim>\<open>MaxTime\<close> is a \<^verbatim>\<open>time.Duration\<close>, a number of
  nanoseconds. The other fields of the job (language, coordinates, zoom, radius,
  proxies) are handed to \<^verbatim>\<open>setupMate\<close> and \<^verbatim>\<open>runner.CreateSeedJobs\<close>, which appear here
  through their outcomes.
\<close>

datatype status = StatusPending | StatusWorking | StatusOK | StatusFailed

record JobData =
  Keywords :: "string list"
  FastMode :: bool
  Depth :: int
  MaxTime :: int

record WebJob =
  JobID :: string
  Status :: status
  Count :: int
  Data :: JobData

text \<open>
  \<^verbatim>\<open>Duration.Seconds\<close> of package \<^verbatim>\<open>time\<close> computes in \<^verbatim>\<open>float64\<close>:
  \<^verbatim>\<open>sec := d / Second; nsec := d % Second; return float64(sec) + float64(nsec)/1e9\<close>.
  Each conversion and each operation gives the \<^verbatim>\<open>float64\<close> nearest to the exact result,
  the one with the even last digit when two are equally near. For a real number \<open>x\<close>
  other than 0 whose magnitude is in the normal range of the format, the values of the
  format around \<open>x\<close> are the multiples of \<open>2 ^ (e - 52)\<close>, where \<open>2 ^ e \<le> \<bar>x\<bar> < 2 ^ (e + 1)\<close>.
  All numbers that occur in \<^verbatim>\<open>Seconds\<close> are 0 or have a magnitude between \<open>10 ^ -9\<close> and
  \<open>2 ^ 34\<close>. The conversion \<^verbatim>\<open>int(f)\<close> cuts the fraction off.
\<close>

definition roundHalfEven :: "real \<Rightarrow> int" where
  "roundHalfEven z =
     (let f = \<lfloor>z\<rfloor>; r = z - of_int f in
      if r < 1 / 2 then f else if 1 / 2 < r then f + 1 else if even f then f else f + 1)"

definition roundFloat64 :: "real \<Rightarrow> real" where
  "roundFloat64 x =
     (if x = 0 then 0
      else (let e = \<lfloor>log 2 \<bar>x\<bar>\<rfloor>;
                ulp = 2 powi (e - 52)
            in sgn x * (ulp * of_int (roundHalfEven (\<bar>x\<bar> / ulp)))))"

definition Seconds :: "int \<Rightarrow> real" where
  "Seconds d =
     (let sec = goDiv d 1000000000;
          nsec = goMod d 1000000000
      in roundFloat64 (roundFloat64 (of_int sec)
                       + roundFloat64 (roundFloat64 (of_int nsec) / 1000000000)))"

definition truncateToInt :: "real \<Rightarrow> int" where
  "truncateToInt f = (if 0 \<le> f then \<lfloor>f\<rfloor> else \<lceil>f\<rceil>)"

text \<open>
  The budget calculation of \<^verbatim>\<open>scrapeJob\<close> (lines 223 to 249), for \<open>seedCount\<close> seed jobs.
\<close>

definition minimumRequired :: "bool \<Rightarrow> int \<Rightarrow> int \<Rightarrow> int \<Rightarrow> int" where
  "minimumRequired fastMode seedCount depth cfgConcurrency =
     (let estimatedPerJob = (if \<not> fastMode then 45 else 15);
          concurrency = max 1 cfgConcurrency;
          m = wrap64 (goDiv (wrap64 (wrap64 (seedCount * estimatedPerJob) * max 1 depth))
                        concurrency + 120)
      in if m < 180 then 180 else m)"

definition allowedSeconds :: "bool \<Rightarrow> int \<Rightarrow> int \<Rightarrow> int \<Rightarrow> int \<Rightarrow> int" where
  "allowedSeconds fastMode seedCount depth cfgConcurrency maxTime =
     (let minimum = minimumRequired fastMode seedCount depth cfgConcurrency in
      if maxTime > 0 then
        (let userSeconds = truncateToInt (Seconds maxTime) in
         if userSeconds < minimum then minimum else userSeconds)
      else minimum)"

text \<open>
  The timeout of the dispatch context (line 253),
  \<^verbatim>\<open>time.Duration(allowedSeconds)*time.Second\<close>: a number of nanoseconds, the product of two
  64-bit integers.
\<close>

definition dispatchTimeout :: "int \<Rightarrow> int" where
  "dispatchTimeout seconds = wrap64 (seconds * 1000000000)"

text \<open>
  What \<^verbatim>\<open>scrapeJob\<close> does to the outside, in order: the calls to the job storage (with
  the status and count of the job at the call), to the writer, the dispatch engine, the
  exit monitor, the wait group and the merger. \<^verbatim>\<open>DoMateStart\<close> carries the timeout of
  the context the engine is started with, in nanoseconds, and the number of seed jobs.
\<close>

datatype action =
    DoUpdate status int
  | DoNewWriter string int
  | DoSetupMate
  | DoWriterClose
  | DoMateClose
  | DoCreateSeedJobs
  | DoSetSeedCount int
  | DoMonitorRun
  | DoMateStart int int
  | DoCancel
  | DoCountWait
  | DoMerge string

text \<open>
  What the outside answers: the results of the first and the second call of
  \<^verbatim>\<open>svc.Update\<close> (no path makes more than two), of \<^verbatim>\<open>setupMate\<close>, of
  \<^verbatim>\<open>runner.CreateSeedJobs\<close> (the number of seed jobs and the error), of \<^verbatim>\<open>mate.Start\<close>,
  what the dispatch run has written to the data folder once the writer is closed, and
  whether a file can be created.
\<close>

record outcomes =
  update1 :: "goerror option"
  update2 :: "goerror option"
  setupMate :: "goerror option"
  seedJobs :: "nat \<times> goerror option"
  mateStart :: "goerror option"
  runWrites :: "folder \<Rightarrow> folder"
  canCreate :: "string \<Rightarrow> bool"

text \<open>
  The end of \<^verbatim>\<open>scrapeJob\<close> (lines 276 to 291): close the writer, wait for the count
  updates, merge, record count and status, update the storage.
\<close>

definition finishRun ::
  "outcomes \<Rightarrow> WebJob \<Rightarrow> folder \<Rightarrow> action list \<times> WebJob \<times> goerror option \<times> folder" where
  "finishRun env job fs =
     (let ((actualCount, mergeErr), fs') = mergeCSVFiles (canCreate env) fs (JobID job);
          job' = job\<lparr>Count := actualCount, Status := StatusOK\<rparr>
      in ([DoWriterClose, DoCountWait, DoMerge (JobID job),
           DoUpdate (Status job') (Count job')], job', update2 env, fs'))"

text \<open>
  \<^verbatim>\<open>scrapeJob\<close>: the actions in order, the job as it is left in memory, the returned
  error and the data folder afterwards. Deferred calls run when the function returns,
  last deferred first: the \<^verbatim>\<open>cancel\<close> of the dispatch context, then the closing of the
  writer and of the engine.
\<close>

definition scrapeJob ::
  "int \<Rightarrow> outcomes \<Rightarrow> WebJob \<Rightarrow> folder \<Rightarrow> action list \<times> WebJob \<times> goerror option \<times> folder" where
  "scrapeJob cfgConcurrency env job0 fs =
     (let job = job0\<lparr>Status := StatusWorking\<rparr>;
          t1 = [DoUpdate (Status job) (Count job)]
      in case update1 env of
           Some err \<Rightarrow> (t1, job, Some err, fs)
         | None \<Rightarrow>
            if length (Keywords (Data job)) = 0 then
              (let job = job\<lparr>Status := StatusFailed\<rparr>
               in (t1 @ [DoUpdate (Status job) (Count job)], job, update2 env, fs))
            else
              (let t2 = t1 @ [DoNewWriter (JobID job) 50000, DoSetupMate] in
               case setupMate env of
                 Some err \<Rightarrow>
                   (let job = job\<lparr>Status := StatusFailed\<rparr>
                    in (t2 @ [DoWriterClose, DoUpdate (Status job) (Count job)],
                        job, Some err, fs))
               | None \<Rightarrow>
                   (let deferred = [DoWriterClose, DoMateClose];
                        t3 = t2 @ [DoCreateSeedJobs]
                    in case seedJobs env of
                         (n, Some err) \<Rightarrow>
                           (t3 @ [DoUpdate (Status job) (Count job)] @ deferred,
                            job, Some err, fs)
                       | (n, None) \<Rightarrow>
                           if n > 0 then
                             (let allowed = allowedSeconds (FastMode (Data job)) (int n)
                                    (Depth (Data job)) cfgConcurrency (MaxTime (Data job));
                                  t4 = t3 @ [DoSetSeedCount (int n), DoMonitorRun,
                                             DoMateStart (dispatchTimeout allowed) (int n)];
                                  fs1 = runWrites env fs;
                                  failed =
                                    (case mateStart env of
                                       None \<Rightarrow> False
                                     | Some err \<Rightarrow> \<not> errorsIs err DeadlineExceeded \<and>
                                                   \<not> errorsIs err Canceled)
                              in if failed then
                                   (let job = job\<lparr>Status := StatusFailed\<rparr>
                                    in (t4 @ [DoCancel, DoUpdate (Status job) (Count job),
                                              DoCancel] @ deferred,
                                        job, mateStart env, fs1))
                                 else
                                   (let (t5, job', err, fs2) = finishRun env job fs1
                                    in (t4 @ [DoCancel] @ t5 @ [DoCancel] @ deferred,
                                        job', err, fs2)))
                           else
                             (let (t5, job', err, fs2) = finishRun env job fs
                              in (t3 @ t5 @ deferred, job', err, fs2)))))"

text \<open>A pending run and outcomes of a run that ends at its deadline, for examples.\<close>

definition exampleJob :: WebJob where
  "exampleJob =
     \<lparr>JobID = ''run'', Status = StatusPending, Count = 0,
      Data = \<lparr>Keywords = [''coffee'', ''bakery''], FastMode = True, Depth = 1,
              MaxTime = 60 * 1000000000\<rparr>\<rparr>"

definition exampleOutcomes :: outcomes where
  "exampleOutcomes =
     \<lparr>update1 = None, update2 = None, setupMate = None, seedJobs = (2, None),
      mateStart = Some DeadlineExceeded,
      runWrites = (\<lambda>fs. exampleShards ''run'' 2 @ fs),
      canCreate = (\<lambda>path. True)\<rparr>"

section \<open>The seed builder (runner.CreateSeedJobs)\<close>

text \<open>
  The string functions of the standard library that the seed builder uses. Strings are
  byte sequences, and \<^verbatim>\<open>strings.TrimSpace\<close> reads them as UTF-8: it removes from both
  ends the runes that \<^verbatim>\<open>unicode.IsSpace\<close> accepts. These are the six ASCII bytes tab, line
  feed, vertical tab, form feed, carriage return and space, and the runes U+0085, U+00A0,
  U+1680, U+2000 to U+200A, U+2028, U+2029, U+202F, U+205F and U+3000, which UTF-8 writes
  in two or three bytes. A byte sequence that is not the encoding of one of these runes
  decodes to a rune that is not white space (an invalid byte decodes to U+FFFD), and the
  trimming stops there.
\<close>

definition asciiSpace :: "char \<Rightarrow> bool" where
  "asciiSpace c = (c \<in> set [CHR 0x09, CHR 0x0A, CHR 0x0B, CHR 0x0C, CHR 0x0D, CHR 0x20])"

definition spaceRunes2 :: "string list" where
  "spaceRunes2 = [[CHR 0xC2, CHR 0x85], [CHR 0xC2, CHR 0xA0]]"

definition spaceRunes3 :: "string list" where
  "spaceRunes3 =
     [[CHR 0xE1, CHR 0x9A, CHR 0x80],
      [CHR 0xE2, CHR 0x80, CHR 0x80], [CHR 0xE2, CHR 0x80, CHR 0x81],
      [CHR 0xE2, CHR 0x80, CHR 0x82], [CHR 0xE2, CHR 0x80, CHR 0x83],
      [CHR 0xE2, CHR 0x80, CHR 0x84], [CHR 0xE2, CHR 0x80, CHR 0x85],
      [CHR 0xE2, CHR 0x80, CHR 0x86], [CHR 0xE2, CHR 0x80, CHR 0x87],
      [CHR 0xE2, CHR 0x80, CHR 0x88], [CHR 0xE2, CHR 0x80, CHR 0x89],
      [CHR 0xE2, CHR 0x80, CHR 0x8A],
      [CHR 0xE2, CHR 0x80, CHR 0xA8], [CHR 0xE2, CHR 0x80, CHR 0xA9],
      [CHR 0xE2, CHR 0x80, CHR 0xAF], [CHR 0xE2, CHR 0x81, CHR 0x9F],
      [CHR 0xE3, CHR 0x80, CHR 0x80]]"

text \<open>
  The width in bytes of the white-space rune a string starts with, and of the one it
  ends with; 0 when the first (last) rune is not white space or the string is empty.
\<close>

definition leadingSpace :: "string \<Rightarrow> nat" where
  "leadingSpace s =
     (if s \<noteq> [] \<and> asciiSpace (hd s) then 1
      else if take 2 s \<in> set spaceRunes2 then 2
      else if take 3 s \<in> set spaceRunes3 then 3
      else 0)"

definition trailingSpace :: "string \<Rightarrow> nat" where
  "trailingSpace s =
     (if s \<noteq> [] \<and> asciiSpace (last s) then 1
      else if drop (length s - 2) s \<in> set spaceRunes2 then 2
      else if drop (length s - 3) s \<in> set spaceRunes3 then 3
      else 0)"

function TrimLeft :: "string \<Rightarrow> string" where
  "TrimLeft s = (if leadingSpace s = 0 then s else TrimLeft (drop (leadingSpace s) s))"
  by pat_completeness auto
termination
proof (relation "measure length")
  show "wf (measure length)" by simp
next
  fix s :: string
  assume "leadingSpace s \<noteq> 0"
  then have "s \<noteq> []" "0 < leadingSpace s"
    by (auto simp: leadingSpace_def spaceRunes2_def spaceRunes3_def)
  then show "(drop (leadingSpace s) s, s) \<in> measure length" by simp
qed

function TrimRight :: "string \<Rightarrow> string" where
  "TrimRight s =
     (if trailingSpace s = 0 then s else TrimRight (take (length s - trailingSpace s) s))"
  by pat_completeness auto
termination
proof (relation "measure length")
  show "wf (measure length)" by simp
next
  fix s :: string
  assume "trailingSpace s \<noteq> 0"
  then have "s \<noteq> []" "0 < trailingSpace s"
    by (auto simp: trailingSpace_def spaceRunes2_def spaceRunes3_def)
  then show "(take (length s - trailingSpace s) s, s) \<in> measure length" by simp
qed

declare TrimLeft.simps [simp del]

declare TrimRight.simps [simp del]

definition TrimSpace :: "string \<Rightarrow> string" where
  "TrimSpace s = TrimRight (TrimLeft s)"

text \<open>
  \<^verbatim>\<open>strings.Cut\<close> cuts at the first occurrence of the separator and gives back the whole
  string when there is none; \<^verbatim>\<open>strings.Split\<close> is needed for the separator \<^verbatim>\<open>","\<close> only.
  Both work on bytes.
\<close>

fun Cut :: "string \<Rightarrow> string \<Rightarrow> string \<times> string \<times> bool" where
  "Cut [] sep = ([], [], sep = [])"
| "Cut (c # cs) sep =
     (if take (length sep) (c # cs) = sep then ([], drop (length sep) (c # cs), True)
      else (let (before, after, found) = Cut cs sep
            in if found then (c # before, after, True) else (c # cs, [], False)))"

fun SplitComma :: "string \<Rightarrow> string list" where
  "SplitComma [] = [[]]"
| "SplitComma (c # cs) =
     (if c = CHR '','' then [] # SplitComma cs
      else (case SplitComma cs of
              [] \<Rightarrow> [[c]]
            | part # parts \<Rightarrow> (c # part) # parts))"

text \<open>
  The arguments of \<^verbatim>\<open>CreateSeedJobs\<close>. The reader is given by what the line scanner
  makes of it: the lines in order and the scanner's final error. The deduper and the
  exit monitor are references or nil.
\<close>

record seedArgs =
  fastmode :: bool
  langCode :: string
  inputLines :: "string list"
  scannerErr :: "goerror option"
  maxDepth :: int
  email :: bool
  geoCoordinates :: string
  zoom :: int
  radius :: float64
  dedup :: "ref option"
  exitMonitor :: "ref option"
  extraReviews :: bool
  searchDelay :: int

text \<open>
  The jobs of the two modes. \<^verbatim>\<open>gmaps.NewGmapJob\<close> and its options live in another file:
  a rendered-page job is kept as the arguments it is built from.
\<close>

datatype GmapJobOptions =
    WithDeduper ref
  | WithExitMonitor ref
  | WithExtraReviews
  | WithSearchDelay int

datatype seedJob =
    GmapJob string string string int bool string int "GmapJobOptions list"
  | FastJob SearchJob

text \<open>
  \<^verbatim>\<open>strconv.ParseFloat\<close> is the argument \<open>parseFloat\<close> (\<open>None\<close> for an error; the texts
  \<^verbatim>\<open>NaN\<close> and \<^verbatim>\<open>Inf\<close> parse without one). The global
  anchor (lines 33 to 49): latitude and longitude stay 0 unless the coordinates are
  given, are not \<^verbatim>\<open>"0,0"\<close>, have two parts that parse and lie in range.
\<close>

definition globalAnchor :: "(string \<Rightarrow> float64 option) \<Rightarrow> bool \<Rightarrow> string \<Rightarrow> float64 \<times> float64" where
  "globalAnchor parseFloat fast geo =
     (if fast \<and> geo \<noteq> [] \<and> geo \<noteq> ''0,0'' then
        (case SplitComma geo of
           [a, b] \<Rightarrow>
             (case parseFloat (TrimSpace a) of
                None \<Rightarrow> (Finite 0, Finite 0)
              | Some qlat \<Rightarrow>
                 (case parseFloat (TrimSpace b) of
                    None \<Rightarrow> (Finite 0, Finite 0)
                  | Some qlon \<Rightarrow>
                     if f64_le (Finite (- 90)) qlat \<and> f64_le qlat (Finite 90) \<and>
                        f64_le (Finite (- 180)) qlon \<and> f64_le qlon (Finite 180)
                     then (qlat, qlon) else (Finite 0, Finite 0)))
         | parts \<Rightarrow> (Finite 0, Finite 0))
      else (Finite 0, Finite 0))"

text \<open>
  The directives of one trimmed, non-empty line (lines 70 to 95): the identifier after
  \<^verbatim>\<open>#!#\<close>, then the per-query coordinates after \<^verbatim>\<open>#!geo#\<close>. The result is the identifier,
  the query, and the per-query latitude, longitude and coordinate text when the
  directive has two parts that parse (\<^verbatim>\<open>hasPerQueryGeo\<close>).
\<close>

definition parseDirectives ::
  "(string \<Rightarrow> float64 option) \<Rightarrow> string
     \<Rightarrow> string \<times> string \<times> (float64 \<times> float64 \<times> string) option" where
  "parseDirectives parseFloat query0 =
     (let (query1, id') = (case Cut query0 ''#!#'' of
                             (bef, aft, True) \<Rightarrow> (TrimSpace bef, TrimSpace aft)
                           | (bef, aft, False) \<Rightarrow> (query0, []))
      in case Cut query1 ''#!geo#'' of
           (bef, aft, True) \<Rightarrow>
             (id', TrimSpace bef,
              (case SplitComma (TrimSpace aft) of
                 [a, b] \<Rightarrow>
                   (case parseFloat a of
                      None \<Rightarrow> None
                    | Some qlat \<Rightarrow>
                       (case parseFloat b of
                          None \<Rightarrow> None
                        | Some qlon \<Rightarrow> Some (qlat, qlon, a @ '','' @ b)))
               | geoParts \<Rightarrow> None))
         | (bef, aft, False) \<Rightarrow> (id', query1, None))"

text \<open>
  The job built for a query that is not skipped (lines 102 to 161). In fast mode the
  parameters are a new object on the heap, at the reference \<open>p\<close>; the zoom level is
  between 1 and 21 there, so that \<^verbatim>\<open>float64(zoom)\<close> is exact.
\<close>

definition buildSeedJob ::
  "int \<Rightarrow> string \<Rightarrow> ref \<Rightarrow> seedArgs \<Rightarrow> int \<Rightarrow> float64 \<Rightarrow> string \<Rightarrow> string \<Rightarrow> float64
     \<Rightarrow> float64 \<Rightarrow> string \<Rightarrow> 'd heap \<Rightarrow> seedJob \<times> 'd heap" where
  "buildSeedJob PriorityMedium uuid p args zoom' radius' id' query queryLat queryLon queryGeo h =
     (if \<not> fastmode args then
        (let opts = (case dedup args of None \<Rightarrow> [] | Some d \<Rightarrow> [WithDeduper d])
                    @ (case exitMonitor args of None \<Rightarrow> [] | Some m \<Rightarrow> [WithExitMonitor m])
                    @ (if extraReviews args then [WithExtraReviews] else [])
                    @ (if searchDelay args > 0 then [WithSearchDelay (searchDelay args)] else [])
         in (GmapJob id' (langCode args) query (maxDepth args) (email args) queryGeo zoom' opts,
             h))
      else
        (let jparams = \<lparr>Location = \<lparr>Lat = queryLat, Lon = queryLon,
                                       ZoomLvl = Finite (real_of_int zoom'), Radius = radius'\<rparr>,
                        Query = query, ViewportW = 1920, ViewportH = 450,
                        Hl = langCode args\<rparr>;
             h0 = h\<lparr>paramsOf := (paramsOf h)(p := jparams)\<rparr>;
             opts = (case dedup args of None \<Rightarrow> []
                     | Some d \<Rightarrow> [WithSearchJobDeduper (Some d)])
                    @ (case exitMonitor args of None \<Rightarrow> []
                       | Some m \<Rightarrow> [WithSearchJobExitMonitor (Some m)])
                    @ (if searchDelay args > 0 then [WithSearchJobDelay (searchDelay args)]
                       else [])
                    @ (if maxDepth args > 1 then [WithSearchJobMaxPages (maxDepth args)]
                       else []);
             (job, h1) = NewSearchJob PriorityMedium uuid p opts h0
         in (FastJob job, h1)))"

text \<open>
  The loop over the lines (lines 64 to 162). The state is the jobs so far and the heap;
  the \<open>n\<close>-th job gets the identifier \<open>uuids n\<close> and, in fast mode, the parameter object
  \<open>firstRef + n\<close>.
\<close>

fun seedLoop ::
  "(string \<Rightarrow> float64 option) \<Rightarrow> int \<Rightarrow> (nat \<Rightarrow> string) \<Rightarrow> ref \<Rightarrow> seedArgs
     \<Rightarrow> float64 \<times> float64 \<Rightarrow> int \<Rightarrow> float64 \<Rightarrow> string list \<Rightarrow> seedJob list \<times> 'd heap \<Rightarrow> seedJob list \<times> 'd heap" where
  "seedLoop parseFloat PriorityMedium uuids firstRef args anchor zoom' radius' [] st = st"
| "seedLoop parseFloat PriorityMedium uuids firstRef args anchor zoom' radius' (line # rest)
     (jobs, h) =
     (let query0 = TrimSpace line in
      if query0 = [] then
        seedLoop parseFloat PriorityMedium uuids firstRef args anchor zoom' radius' rest (jobs, h)
      else
        (let (id', query, perQuery) = parseDirectives parseFloat query0;
             (lat, lon) = anchor;
             (queryLat, queryLon, queryGeo) =
               (case perQuery of
                  None \<Rightarrow> (lat, lon, geoCoordinates args)
                | Some g \<Rightarrow> g);
             hasPerQueryGeo = (perQuery \<noteq> None)
         in if fastmode args \<and> \<not> hasPerQueryGeo \<and>
               (f64_eq lat (Finite 0) \<and> f64_eq lon (Finite 0)) then
              seedLoop parseFloat PriorityMedium uuids firstRef args anchor zoom' radius' rest
                (jobs, h)
            else
              (let (job, h') = buildSeedJob PriorityMedium (uuids (length jobs))
                                 (firstRef + length jobs) args zoom' radius' id' query
                                 queryLat queryLon queryGeo h
               in seedLoop parseFloat PriorityMedium uuids firstRef args anchor zoom' radius'
                    rest (jobs @ [job], h'))))"

text \<open>\<^verbatim>\<open>CreateSeedJobs\<close>: the jobs, the error (the scanner's), and the heap.\<close>

definition CreateSeedJobs ::
  "(string \<Rightarrow> float64 option) \<Rightarrow> int \<Rightarrow> (nat \<Rightarrow> string) \<Rightarrow> ref \<Rightarrow> seedArgs \<Rightarrow> 'd heap
     \<Rightarrow> (seedJob list \<times> goerror option) \<times> 'd heap" where
  "CreateSeedJobs parseFloat PriorityMedium uuids firstRef args h =
     (let anchor = globalAnchor parseFloat (fastmode args) (geoCoordinates args);
          zoom' = (if fastmode args \<and> (zoom args < 1 \<or> zoom args > 21) then 15 else zoom args);
          radius' = (if fastmode args \<and> f64_lt (radius args) (Finite 0) then Finite 10000
                     else radius args);
          (jobs, h') = seedLoop parseFloat PriorityMedium uuids firstRef args anchor zoom'
                         radius' (inputLines args) ([], h)
      in ((jobs, scannerErr args), h'))"



text \<open>The page limit of a fast-mode job.\<close>

definition jobMaxPages :: "seedJob \<Rightarrow> int option" where
  "jobMaxPages job =
     (case job of
        GmapJob id' lang query depth mail geo z opts \<Rightarrow> None
      | FastJob j \<Rightarrow> Some (maxPages j))"

text \<open>
  A stand-in for \<^verbatim>\<open>strconv.ParseFloat\<close> on the few texts of the examples, and arguments
  of a fast-mode call without a global anchor.
\<close>

definition exampleParseFloat :: "string \<Rightarrow> float64 option" where
  "exampleParseFloat s =
     (if s = ''0'' then Some (Finite 0)
      else if s = ''40.0'' then Some (Finite 40)
      else if s = ''-73.0'' then Some (Finite (- 73))
      else if s = ''NaN'' then Some NaN
      else None)"

definition exampleArgs :: "string list \<Rightarrow> seedArgs" where
  "exampleArgs ls =
     \<lparr>fastmode = True, langCode = ''en'', inputLines = ls, scannerErr = None, maxDepth = 1,
      email = False, geoCoordinates = [], zoom = 15, radius = Finite 10000, dedup = Some 0,
      exitMonitor = Some 0, extraReviews = False, searchDelay = 0\<rparr>"



section \<open>The rotating CSV writer (web runner)\<close>

text \<open>
  A shard file as the writer produces it: its rows in order, each either the header row
  written by \<^verbatim>\<open>rotate\<close> or a data row written by \<^verbatim>\<open>writeOne\<close>. The disk maps the names of
  the files written so far to their rows. Buffering is not modelled: a row counts as
  part of its shard from the moment it is written, so the rows of a shard here are the
  rows of the file once it is flushed.
\<close>

datatype csvLine =
    HeaderRow "string list"
  | DataRow "string list"

type_synonym disk = "string \<Rightarrow> csvLine list option"

fun isDataRow :: "csvLine \<Rightarrow> bool" where
  "isDataRow (DataRow r) = True"
| "isDataRow (HeaderRow r) = False"

definition dataRows :: "csvLine list \<Rightarrow> nat" where
  "dataRows ls = length (filter isDataRow ls)"

text \<open>
  The dynamic type of a payload (after a \<^verbatim>\<open>scrapemate.Result\<close> has been unwrapped to its
  \<^verbatim>\<open>Data\<close>): an entry, a pointer to an entry, a slice of strings, a slice of entry
  pointers, or anything else.
\<close>

datatype payload =
    PEntry Entry
  | PEntryPtr Entry
  | PStrings "string list"
  | PEntries "Entry list"
  | POther

text \<open>
  The writer. \<^verbatim>\<open>currentFile\<close> is nil or a file handle: its name and whether it is still
  open (a handle stays in place after \<^verbatim>\<open>rotate\<close> or \<^verbatim>\<open>Run\<close> has closed it). The CSV
  writer belongs to the handle. \<^verbatim>\<open>OnWrite\<close> is a callback or nil; \<open>notified\<close> sums the
  amounts it was called with.
\<close>

record RotatingCsvWriter =
  baseFileName :: string
  limit :: int
  currentCount :: int
  fileIndex :: int
  currentFile :: "(string \<times> bool) option"
  OnWrite :: bool
  notified :: int

definition NewRotatingCsvWriter :: "string \<Rightarrow> int \<Rightarrow> RotatingCsvWriter" where
  "NewRotatingCsvWriter base rowLimit =
     \<lparr>baseFileName = base, limit = rowLimit, currentCount = 0, fileIndex = 1,
      currentFile = None, OnWrite = False, notified = 0\<rparr>"

text \<open>
  What the file system answers during one call: whether \<^verbatim>\<open>os.Create\<close> of a name
  succeeds, and whether writing the header row, or a data row, to the file of a name
  succeeds.
\<close>

record fsAnswers =
  createOK :: "string \<Rightarrow> bool"
  headerOK :: "string \<Rightarrow> bool"
  rowOK :: "string \<Rightarrow> bool"

text \<open>
  \<^verbatim>\<open>CsvHeaders\<close> and \<^verbatim>\<open>CsvRow\<close> of \<^verbatim>\<open>gmaps.Entry\<close> live in another file; they are the
  arguments \<open>csvHeaders\<close> and \<open>csvRow\<close>. \<^verbatim>\<open>getHeaders\<close> is the local helper of \<^verbatim>\<open>rotate\<close>
  (nil is the empty list).
\<close>

definition getHeaders :: "(Entry \<Rightarrow> string list) \<Rightarrow> payload \<Rightarrow> string list" where
  "getHeaders csvHeaders item =
     (case item of
        PEntry e \<Rightarrow> csvHeaders e
      | PEntryPtr e \<Rightarrow> csvHeaders e
      | PStrings r \<Rightarrow> []
      | PEntries es \<Rightarrow> []
      | POther \<Rightarrow> [])"

text \<open>
  \<^verbatim>\<open>rotate\<close> (named \<open>rotateW\<close>, since \<open>rotate\<close> is a list function): close the current
  file, create the next shard (which truncates a file of that name), reset the count,
  advance the index, write the header when there is one.
\<close>

definition rotateW ::
  "(Entry \<Rightarrow> string list) \<Rightarrow> fsAnswers \<Rightarrow> payload \<Rightarrow> RotatingCsvWriter \<times> disk
     \<Rightarrow> goerror option \<times> RotatingCsvWriter \<times> disk" where
  "rotateW csvHeaders io sampleData s =
     (let (w, d) = s;
          w1 = (case currentFile w of
                  None \<Rightarrow> w
                | Some (name, isOpen) \<Rightarrow> w\<lparr>currentFile := Some (name, False)\<rparr>);
          filename = shardName (baseFileName w) (fileIndex w)
      in if \<not> createOK io filename
         then (Some (Wrapf ''failed to create rotating file: ''
                       (Errorf ''open: permission denied'')), w1, d)
         else
           (let d1 = d(filename \<mapsto> []);
                w2 = w1\<lparr>currentFile := Some (filename, True), currentCount := 0,
                        fileIndex := fileIndex w + 1\<rparr>;
                headers = (case sampleData of
                             PEntries (e # es) \<Rightarrow> getHeaders csvHeaders (PEntryPtr e)
                           | other \<Rightarrow> getHeaders csvHeaders sampleData)
            in if length headers > 0 then
                 (if \<not> headerOK io filename
                  then (Some (Errorf ''write: input/output error''), w2, d1)
                  else (None, w2, d1(filename \<mapsto> [HeaderRow headers])))
               else (None, w2, d1)))"

text \<open>
  \<^verbatim>\<open>writeOne\<close>. A row written through a handle that is already closed does not reach
  the file (it stays in the CSV writer's buffer); the count goes up all the same when
  the write reports no error.
\<close>

definition appendRow :: "string \<times> bool \<Rightarrow> string list \<Rightarrow> disk \<Rightarrow> disk" where
  "appendRow f record d =
     (case d (fst f) of
        None \<Rightarrow> d
      | Some ls \<Rightarrow> if snd f then d(fst f \<mapsto> ls @ [DataRow record]) else d)"

text \<open>
  The first part of \<^verbatim>\<open>writeOne\<close> (lines 90 to 102): rotate when no file is open, then
  rotate when the count has reached the limit; an error of \<^verbatim>\<open>rotate\<close> is returned.
\<close>

definition ensureShard ::
  "(Entry \<Rightarrow> string list) \<Rightarrow> fsAnswers \<Rightarrow> payload \<Rightarrow> RotatingCsvWriter \<times> disk
     \<Rightarrow> goerror option \<times> RotatingCsvWriter \<times> disk" where
  "ensureShard csvHeaders io p s0 =
     (let (err1, s1) = (if currentFile (fst s0) = None
                        then rotateW csvHeaders io p s0 else (None, s0))
      in if err1 \<noteq> None then (err1, s1)
         else if currentCount (fst s1) \<ge> limit (fst s1)
              then rotateW csvHeaders io p s1 else (None, s1))"

text \<open>
  The second part of \<^verbatim>\<open>writeOne\<close> (lines 104 to 132): build the record, write it,
  count it, notify.
\<close>

definition writeRecord ::
  "(Entry \<Rightarrow> string list) \<Rightarrow> fsAnswers \<Rightarrow> payload \<Rightarrow> RotatingCsvWriter \<times> disk
     \<Rightarrow> goerror option \<times> RotatingCsvWriter \<times> disk" where
  "writeRecord csvRow io p s =
     (let (w, d) = s;
          record = (case p of
                      PEntry e \<Rightarrow> Some (csvRow e)
                    | PEntryPtr e \<Rightarrow> Some (csvRow e)
                    | PStrings row \<Rightarrow> Some row
                    | PEntries es \<Rightarrow> None
                    | POther \<Rightarrow> None)
      in case record of
           None \<Rightarrow> (Some (Errorf ''invalid data type for csv writer''), w, d)
         | Some r \<Rightarrow>
            (case currentFile w of
               None \<Rightarrow> (Some (Errorf ''nil pointer dereference''), w, d)
             | Some f \<Rightarrow>
                if \<not> rowOK io (fst f)
                then (Some (Errorf ''write: input/output error''), w, d)
                else
                  (let w' = w\<lparr>currentCount := currentCount w + 1\<rparr>;
                       w'' = (if OnWrite w' then w'\<lparr>notified := notified w' + 1\<rparr> else w')
                   in (None, w'', appendRow f r d))))"

definition writeOne ::
  "(Entry \<Rightarrow> string list) \<Rightarrow> (Entry \<Rightarrow> string list) \<Rightarrow> fsAnswers \<Rightarrow> payload
     \<Rightarrow> RotatingCsvWriter \<times> disk \<Rightarrow> goerror option \<times> RotatingCsvWriter \<times> disk" where
  "writeOne csvRow csvHeaders io p s0 =
     (let (err, s) = ensureShard csvHeaders io p s0
      in if err \<noteq> None then (err, s) else writeRecord csvRow io p s)"

text \<open>\<^verbatim>\<open>Write\<close>: a slice of entries is written entry by entry, up to the first error.\<close>

fun writeEntries ::
  "(Entry \<Rightarrow> string list) \<Rightarrow> (Entry \<Rightarrow> string list) \<Rightarrow> fsAnswers \<Rightarrow> Entry list
     \<Rightarrow> RotatingCsvWriter \<times> disk \<Rightarrow> goerror option \<times> RotatingCsvWriter \<times> disk" where
  "writeEntries csvRow csvHeaders io [] s = (None, s)"
| "writeEntries csvRow csvHeaders io (e # es) s =
     (case writeOne csvRow csvHeaders io (PEntryPtr e) s of
        (Some err, s') \<Rightarrow> (Some err, s')
      | (None, s') \<Rightarrow> writeEntries csvRow csvHeaders io es s')"

definition Write ::
  "(Entry \<Rightarrow> string list) \<Rightarrow> (Entry \<Rightarrow> string list) \<Rightarrow> fsAnswers \<Rightarrow> payload
     \<Rightarrow> RotatingCsvWriter \<times> disk \<Rightarrow> goerror option \<times> RotatingCsvWriter \<times> disk" where
  "Write csvRow csvHeaders io p s =
     (case p of
        PEntries entries \<Rightarrow> writeEntries csvRow csvHeaders io entries s
      | other \<Rightarrow> writeOne csvRow csvHeaders io p s)"

text \<open>
  \<^verbatim>\<open>Close\<close> closes the file and forgets the handle; the deferred function of \<^verbatim>\<open>Run\<close>
  closes the file and keeps the handle.
\<close>

definition Close :: "RotatingCsvWriter \<times> disk \<Rightarrow> goerror option \<times> RotatingCsvWriter \<times> disk" where
  "Close s =
     (let (w, d) = s in
      case currentFile w of
        None \<Rightarrow> (None, w, d)
      | Some (name, isOpen) \<Rightarrow>
          (if isOpen then None else Some (Errorf ''close: file already closed''),
           w\<lparr>currentFile := None\<rparr>, d))"

definition runExit :: "RotatingCsvWriter \<times> disk \<Rightarrow> RotatingCsvWriter \<times> disk" where
  "runExit s =
     (let (w, d) = s in
      case currentFile w of
        None \<Rightarrow> (w, d)
      | Some (name, isOpen) \<Rightarrow> (w\<lparr>currentFile := Some (name, False)\<rparr>, d))"

text \<open>
  A sequence of calls on one writer; every call takes the lock, so calls do not
  overlap. Errors go back to the callers; the writer carries on from the state the
  failed call left.
\<close>

datatype writerCall =
    CallWrite fsAnswers payload
  | CallClose
  | CallRunExit

fun runCalls ::
  "(Entry \<Rightarrow> string list) \<Rightarrow> (Entry \<Rightarrow> string list) \<Rightarrow> writerCall list
     \<Rightarrow> RotatingCsvWriter \<times> disk \<Rightarrow> RotatingCsvWriter \<times> disk" where
  "runCalls csvRow csvHeaders [] s = s"
| "runCalls csvRow csvHeaders (CallWrite io p # calls) s =
     runCalls csvRow csvHeaders calls (snd (Write csvRow csvHeaders io p s))"
| "runCalls csvRow csvHeaders (CallClose # calls) s =
     runCalls csvRow csvHeaders calls (snd (Close s))"
| "runCalls csvRow csvHeaders (CallRunExit # calls) s =
     runCalls csvRow csvHeaders calls (runExit s)"

text \<open>Stand-ins for \<^verbatim>\<open>CsvHeaders\<close> and \<^verbatim>\<open>CsvRow\<close>, and answers of a healthy file system.\<close>

definition exampleHeaders :: "Entry \<Rightarrow> string list" where
  "exampleHeaders e = [''cid'', ''title'', ''address'']"

definition exampleRow :: "Entry \<Rightarrow> string list" where
  "exampleRow e = [Cid e, Title e, Address e]"

definition allOK :: fsAnswers where
  "allOK = \<lparr>createOK = (\<lambda>name. True), headerOK = (\<lambda>name. True), rowOK = (\<lambda>name. True)\<rparr>"

definition exampleEntry :: "string \<Rightarrow> Entry" where
  "exampleEntry c = \<lparr>Cid = c, Title = ''title'', Address = ''address''\<rparr>"

text \<open>
  The row cap on a disk, and the invariant of a writer with row limit \<open>rowLimit\<close>: the
  count lies between 0 and the limit, every file on the disk is within the cap, and
  the file of the current handle holds no more data rows than the count says.
\<close>

definition withinCap :: "int \<Rightarrow> disk \<Rightarrow> bool" where
  "withinCap rowLimit d = (\<forall>name ls. d name = Some ls \<longrightarrow> int (dataRows ls) \<le> rowLimit)"

definition writerInv :: "int \<Rightarrow> RotatingCsvWriter \<times> disk \<Rightarrow> bool" where
  "writerInv rowLimit s =
     (limit (fst s) = rowLimit \<and> 0 \<le> currentCount (fst s) \<and>
      currentCount (fst s) \<le> rowLimit \<and> withinCap rowLimit (snd s) \<and>
      (\<forall>name isOpen ls. currentFile (fst s) = Some (name, isOpen) \<longrightarrow>
         snd s name = Some ls \<longrightarrow> int (dataRows ls) \<le> currentCount (fst s)))"

section \<open>Properties of the preliminaries\<close>

lemma wrap64_id:
  assumes "isInt64 x"
  shows "wrap64 x = x"
proof -
  from assms have "0 \<le> x + 2 ^ 63" and "x + 2 ^ 63 < 2 ^ 64"
    by (simp_all add: isInt64_def)
  then have "(x + 2 ^ 63) mod 2 ^ 64 = x + 2 ^ 63"
    by (rule mod_pos_pos_trivial)
  then show ?thesis
    by (simp add: wrap64_def)
qed

lemma goDiv_pos: "0 \<le> a \<Longrightarrow> 0 < b \<Longrightarrow> goDiv a b = a div b"
  by (simp add: goDiv_def Let_def)

lemma f64_eq_Finite [simp]: "f64_eq x (Finite c) = (x = Finite c)"
  by (auto simp: f64_eq_def)

lemma goMod_pos: "0 \<le> a \<Longrightarrow> 0 < b \<Longrightarrow> goMod a b = a mod b"
  by (simp add: goMod_def goDiv_pos minus_div_mult_eq_mod)

section \<open>Properties of the paginating search job\<close>


subsection \<open>Helper lemmas\<close>

lemma indexByte_notin: "c \<notin> set xs \<Longrightarrow> indexByte xs c = - 1"
  by (induction xs) (auto simp: Let_def)

lemma indexByte_first: "c \<notin> set pre \<Longrightarrow> indexByte (pre @ c # post) c = int (length pre)"
  by (induction pre) (auto simp: Let_def)

lemma removeFirstLine_no_newline: "CHR 0x0A \<notin> set data \<Longrightarrow> removeFirstLine data = []"
  by (simp add: removeFirstLine_def indexByte_notin Let_def)

lemma removeFirstLine_split:
  "CHR 0x0A \<notin> set pre \<Longrightarrow> removeFirstLine (pre @ CHR 0x0A # post) = post"
  by (simp add: removeFirstLine_def indexByte_first Let_def nat_add_distrib)

lemma Process_empty:
  "removeFirstLine respBody = [] \<Longrightarrow>
   Process deps uuid j respBody h = (Inl (Errorf ''empty response body''), h)"
  by (simp add: Process_def Let_def)

lemma Process_InrD:
  assumes "Process deps uuid j respBody h = (Inr (entries, nextJobs), h')"
  shows "\<exists>decoded. ParseSearchResults deps (removeFirstLine respBody) = Inr decoded \<and>
     entries = fst (survivors deps j decoded h) \<and>
     nextJobs = fst (nextPageJobs uuid j (int (length decoded)) (snd (survivors deps j decoded h))) \<and>
     h' = (let h2 = snd (nextPageJobs uuid j (int (length decoded)) (snd (survivors deps j decoded h)))
           in if ExitMonitor j \<noteq> None then reportPage j (int (length entries)) h2 else h2)"
  using assms
  by (auto simp: Process_def Let_def split: if_splits sum.splits prod.splits)

lemma exiterLog_survivors: "exiterLog (snd (survivors deps j decoded h)) = exiterLog h"
  by (simp add: survivors_def Let_def split: option.splits prod.splits)

lemma paramsOf_survivors: "paramsOf (snd (survivors deps j decoded h)) = paramsOf h"
  by (simp add: survivors_def Let_def split: option.splits prod.splits)

lemma nextPageJobs_cases:
  assumes "validJob j"
  shows "nextPageJobs uuid j rawCount h =
     (if rawCount \<ge> 20 \<and> pageNum j + 1 < maxPages j then
        (let (urlParams, h1) = buildGoogleMapsParams (params j) ((pageNum j + 1) * 20) h
         in ([\<lparr>Job = \<lparr>ID = uuid, Method = ''GET'', URL = ''https://maps.google.com/search'',
                       URLParams = urlParams, MaxRetries = 1,
                       Priority = wrap64 (Priority (Job j) + 1)\<rparr>,
               params = params j, ExitMonitor = ExitMonitor j,
               Deduper = Deduper j, SearchDelay = SearchDelay j,
               offset = (pageNum j + 1) * 20, pageNum = pageNum j + 1, maxPages = maxPages j\<rparr>],
             callExiter (ExitMonitor j) (IncrPlacesFound 1) h1))
      else ([], h))"
proof -
  from assms have b: "0 \<le> pageNum j" "pageNum j < maxPages j" "maxPages j \<le> 6"
    by (simp_all add: validJob_def maxPaginationPages_def)
  then have w1: "wrap64 (pageNum j + 1) = pageNum j + 1"
    by (intro wrap64_id) (simp add: isInt64_def)
  from b have w2: "wrap64 (pageNum j * 20 + 20) = pageNum j * 20 + 20"
    by (intro wrap64_id) (simp add: isInt64_def)
  show ?thesis
    by (simp add: nextPageJobs_def w1 w2 resultsPerPage_def Let_def)
qed

lemma rawCountOf_decoded:
  "ParseSearchResults deps (removeFirstLine respBody) = Inr decoded \<Longrightarrow>
   rawCountOf deps respBody = length decoded"
  by (simp add: rawCountOf_def)

text \<open>
  Claim C3. For a page \<open>k\<close> that \<^verbatim>\<open>SearchJob.Process\<close> processes successfully, exactly one
  child job is emitted when the number of decoded entries before filtering is at least
  20 and \<open>k + 1\<close> is below the page limit, and no child otherwise. The child has offset
  \<open>(k + 1) * 20\<close> (also in its \<^verbatim>\<open>pb\<close> URL parameter), page number \<open>k + 1\<close>, the page
  limit, the parameters (the same pointer, with query, language and location
  unchanged), the deduper and the exit monitor of its parent, and the numeric priority
  of its parent plus one. The job is one of a chain (\<^const>\<open>validJob\<close>) and its priority
  plus one is representable.
\<close>

theorem Process_pagination:
  assumes "Process deps uuid j respBody h = (Inr (entries, nextJobs), h')"
    and "validJob j"
    and "isInt64 (Priority (Job j) + 1)"
  shows "if resultsPerPage \<le> int (rawCountOf deps respBody) \<and> pageNum j + 1 < maxPages j
         then \<exists>child. nextJobs = [child] \<and>
                offset child = (pageNum j + 1) * resultsPerPage \<and>
                pageNum child = pageNum j + 1 \<and>
                maxPages child = maxPages j \<and>
                params child = params j \<and>
                Deduper child = Deduper j \<and>
                ExitMonitor child = ExitMonitor j \<and>
                Priority (Job child) = Priority (Job j) + 1 \<and>
                Query (paramsOf h' (params child)) = Query (paramsOf h (params j)) \<and>
                Hl (paramsOf h' (params child)) = Hl (paramsOf h (params j)) \<and>
                Location (paramsOf h' (params child)) = Location (paramsOf h (params j)) \<and>
                map_of (URLParams (Job child)) ''q'' = Some (Lit (Query (paramsOf h (params j)))) \<and>
                map_of (URLParams (Job child)) ''pb'' =
                  Some (PbFormat (Lon (Location (paramsOf h (params j))))
                          (Lat (Location (paramsOf h (params j)))) 600 800
                          (ZoomLvl (Location (paramsOf h (params j))))
                          ((pageNum j + 1) * resultsPerPage))
         else nextJobs = []"
proof -
  from assms(1) obtain decoded where
    d: "ParseSearchResults deps (removeFirstLine respBody) = Inr decoded"
    and nj: "nextJobs = fst (nextPageJobs uuid j (int (length decoded)) (snd (survivors deps j decoded h)))"
    and h': "h' = (let h2 = snd (nextPageJobs uuid j (int (length decoded)) (snd (survivors deps j decoded h)))
           in if ExitMonitor j \<noteq> None then reportPage j (int (length entries)) h2 else h2)"
    using Process_InrD by blast
  have rc: "int (rawCountOf deps respBody) = int (length decoded)"
    using d by (simp add: rawCountOf_decoded)
  have pr: "wrap64 (Priority (Job j) + 1) = Priority (Job j) + 1"
    using assms(3) by (rule wrap64_id)
  have po: "paramsOf (snd (survivors deps j decoded h)) = paramsOf h"
    by (rule paramsOf_survivors)
  show ?thesis
    unfolding rc nj h' nextPageJobs_cases [OF assms(2)] resultsPerPage_def
    by (simp add: Let_def pr po buildGoogleMapsParams_def reportPage_def callExiter_def
          split: option.splits)
qed


lemma validJob_exampleSeed: "validJob exampleSeed"
  by (simp add: validJob_def exampleSeed_def NewSearchJob_def buildGoogleMapsParams_def
        maxPaginationPages_def resultsPerPage_def Let_def)

lemma exampleSeed_fields:
  "pageNum exampleSeed = 0" "maxPages exampleSeed = 2" "Priority (Job exampleSeed) = 1"
  "ExitMonitor exampleSeed = Some 0" "Deduper exampleSeed = Some 0" "params exampleSeed = 0"
  by (simp_all add: exampleSeed_def NewSearchJob_def buildGoogleMapsParams_def
        maxPaginationPages_def Let_def)

lemma removeFirstLine_fullPage: "removeFirstLine fullPage = ''abcdefghijklmnopqrst''"
  by (simp add: fullPage_def removeFirstLine_def)

lemma rawCountOf_fullPage: "rawCountOf exampleDeps fullPage = 20"
  by (simp add: rawCountOf_def removeFirstLine_fullPage exampleDeps_def)

lemma Process_fullPage_Inr:
  "\<exists>entries nextJobs h'. Process exampleDeps ''c1'' exampleSeed fullPage exampleHeap = (Inr (entries, nextJobs), h')"
  by (simp add: Process_def removeFirstLine_fullPage exampleDeps_def Let_def split: prod.splits)

lemma removeFirstLine_shortPage: "removeFirstLine shortPage = ''abc''"
  by (simp add: shortPage_def removeFirstLine_def)

lemma rawCountOf_shortPage: "rawCountOf exampleDeps shortPage = 3"
  by (simp add: rawCountOf_def removeFirstLine_shortPage exampleDeps_def)

lemma Process_shortPage_Inr:
  "\<exists>entries nextJobs h'. Process exampleDeps ''c1'' exampleSeed shortPage exampleHeap = (Inr (entries, nextJobs), h')"
  by (simp add: Process_def removeFirstLine_shortPage exampleDeps_def Let_def split: prod.splits)

theorem Process_pagination_witness:
  "(\<exists>entries child h'.
     Process exampleDeps ''c1'' exampleSeed fullPage exampleHeap = (Inr (entries, [child]), h') \<and>
     offset child = 20 \<and> pageNum child = 1 \<and> Priority (Job child) = 2 \<and>
     params child = params exampleSeed \<and> Deduper child = Deduper exampleSeed \<and>
     ExitMonitor child = ExitMonitor exampleSeed) \<and>
   (\<exists>entries h'.
     Process exampleDeps ''c1'' exampleSeed shortPage exampleHeap = (Inr (entries, []), h'))"
proof -
  obtain entries nextJobs h' where
    p: "Process exampleDeps ''c1'' exampleSeed fullPage exampleHeap = (Inr (entries, nextJobs), h')"
    using Process_fullPage_Inr by blast
  have i: "isInt64 (Priority (Job exampleSeed) + 1)"
    by (simp add: exampleSeed_fields isInt64_def)
  have full: "\<exists>entries child h'.
     Process exampleDeps ''c1'' exampleSeed fullPage exampleHeap = (Inr (entries, [child]), h') \<and>
     offset child = 20 \<and> pageNum child = 1 \<and> Priority (Job child) = 2 \<and>
     params child = params exampleSeed \<and> Deduper child = Deduper exampleSeed \<and>
     ExitMonitor child = ExitMonitor exampleSeed"
    using Process_pagination [OF p validJob_exampleSeed i] p
    by (auto simp: rawCountOf_fullPage exampleSeed_fields resultsPerPage_def)
  obtain entries2 nextJobs2 h2 where
    q: "Process exampleDeps ''c1'' exampleSeed shortPage exampleHeap = (Inr (entries2, nextJobs2), h2)"
    using Process_shortPage_Inr by blast
  have short: "\<exists>entries h'.
     Process exampleDeps ''c1'' exampleSeed shortPage exampleHeap = (Inr (entries, []), h')"
    using Process_pagination [OF q validJob_exampleSeed i] q
    by (auto simp: rawCountOf_shortPage exampleSeed_fields resultsPerPage_def)
  from full short show ?thesis by blast
qed

lemma exiterLog_callExiter:
  "exiterLog (callExiter (Some m) c h) m = exiterLog h m @ [c]"
  "m' \<noteq> m \<Longrightarrow> exiterLog (callExiter (Some m) c h) m' = exiterLog h m'"
  by (simp_all add: callExiter_def)

lemma exiterLog_buildGoogleMapsParams:
  "buildGoogleMapsParams p off h = (u, h1) \<Longrightarrow> exiterLog h1 = exiterLog h"
  by (auto simp: buildGoogleMapsParams_def Let_def)

lemma exiterLog_nextPageJobs:
  assumes "ExitMonitor j = Some m"
  shows "exiterLog (snd (nextPageJobs uuid j rawCount h)) m =
           exiterLog h m @ (if fst (nextPageJobs uuid j rawCount h) = [] then []
                            else [IncrPlacesFound 1])"
    and "m' \<noteq> m \<Longrightarrow> exiterLog (snd (nextPageJobs uuid j rawCount h)) m' = exiterLog h m'"
  using assms
  by (auto simp: nextPageJobs_def Let_def exiterLog_callExiter
        dest: exiterLog_buildGoogleMapsParams split: prod.splits)

lemma exiterLog_reportPage:
  assumes "ExitMonitor j = Some m"
  shows "exiterLog (reportPage j n h) m =
           exiterLog h m @ [if pageNum j = 0 then IncrSeedCompleted 1 else IncrPlacesCompleted 1,
                            IncrPlacesFound n, IncrPlacesCompleted n]"
    and "m' \<noteq> m \<Longrightarrow> exiterLog (reportPage j n h) m' = exiterLog h m'"
  using assms by (simp_all add: reportPage_def Let_def exiterLog_callExiter)

text \<open>
  The deduplication loop for a deduper that behaves as the set of keys recorded so far
  (a key is admitted iff it is not in the set, and is in the set afterwards): the
  entries that survive are, in order, those whose key is neither recorded already nor
  the key of an earlier entry of the page.
\<close>

lemma dedupKey_nonempty: "dedupKey e \<noteq> []"
  by (simp add: dedupKey_def)

lemma upt_0_Suc: "[0..<Suc n] = 0 # map Suc [0..<n]"
  by (simp only: upt_conv_Cons [OF zero_less_Suc] map_Suc_upt)

lemma dedupLoop_setlike:
  assumes "\<forall>s k. fst (add s k) = (k \<notin> keys s) \<and> keys (snd (add s k)) = insert k (keys s)"
  shows "fst (dedupLoop add d es) =
           map (nth es)
             (filter (\<lambda>i. dedupKey (es ! i) \<notin> keys d \<union> dedupKey ` set (take i es))
                [0..<length es])"
proof (induction es arbitrary: d)
  case Nil
  show ?case by simp
next
  case (Cons e es)
  obtain ok d' where a: "add d (dedupKey e) = (ok, d')" by (metis surj_pair)
  from assms [rule_format, of d "dedupKey e"] a
  have ok: "ok = (dedupKey e \<notin> keys d)" and k: "keys d' = insert (dedupKey e) (keys d)"
    by simp_all
  have l: "fst (dedupLoop add d (e # es)) =
             (if ok then [e] else []) @ fst (dedupLoop add d' es)"
    by (simp add: dedupKey_nonempty a Let_def split: prod.splits)
  have r: "map (nth (e # es))
             (filter (\<lambda>i. dedupKey ((e # es) ! i) \<notin> keys d \<union> dedupKey ` set (take i (e # es)))
                [0..<length (e # es)]) =
           (if ok then [e] else []) @
           map (nth es)
             (filter (\<lambda>i. dedupKey (es ! i) \<notin> keys d' \<union> dedupKey ` set (take i es))
                [0..<length es])"
    unfolding length_Cons upt_0_Suc
    by (simp add: filter_map comp_def ok k conj_ac)
  show ?case
    unfolding l r Cons.IH [of d'] ..
qed

lemma dedupLoop_keys:
  assumes "\<forall>s k. fst (add s k) = (k \<notin> keys s) \<and> keys (snd (add s k)) = insert k (keys s)"
  shows "distinct (map dedupKey (fst (dedupLoop add d es))) \<and>
         dedupKey ` set (fst (dedupLoop add d es)) = dedupKey ` set es - keys d"
proof (induction es arbitrary: d)
  case Nil
  show ?case by simp
next
  case (Cons e es)
  obtain ok d' where a: "add d (dedupKey e) = (ok, d')" by (metis surj_pair)
  from assms [rule_format, of d "dedupKey e"] a
  have ok: "ok = (dedupKey e \<notin> keys d)" and k: "keys d' = insert (dedupKey e) (keys d)"
    by simp_all
  have l: "fst (dedupLoop add d (e # es)) =
             (if ok then [e] else []) @ fst (dedupLoop add d' es)"
    by (simp add: dedupKey_nonempty a Let_def split: prod.splits)
  from Cons.IH [of d'] show ?case
    unfolding l by (auto simp: ok k)
qed

lemma dedupLoop_count:
  assumes "\<forall>s k. fst (add s k) = (k \<notin> keys s) \<and> keys (snd (add s k)) = insert k (keys s)"
  shows "length (fst (dedupLoop add d es)) = card (dedupKey ` set es - keys d)"
proof -
  from dedupLoop_keys [OF assms, of d es]
  have "distinct (map dedupKey (fst (dedupLoop add d es)))"
    and s: "dedupKey ` set (fst (dedupLoop add d es)) = dedupKey ` set es - keys d"
    by simp_all
  then have "card (set (map dedupKey (fst (dedupLoop add d es)))) =
               length (map dedupKey (fst (dedupLoop add d es)))"
    by (simp only: distinct_card)
  then show ?thesis using s by simp
qed

text \<open>
  Claim C4. For a successful \<^verbatim>\<open>SearchJob.Process\<close> call with exit monitor \<open>m\<close> attached,
  the monitor receives, after the calls it had received before and in this order:
  \<^verbatim>\<open>IncrPlacesFound(1)\<close> when a child job is emitted; \<^verbatim>\<open>IncrSeedCompleted(1)\<close> for page 0
  or \<^verbatim>\<open>IncrPlacesCompleted(1)\<close> for any other page; \<^verbatim>\<open>IncrPlacesFound(n)\<close> and
  \<^verbatim>\<open>IncrPlacesCompleted(n)\<close>, where \<open>n\<close> is the number of returned entries. The returned
  entries are the decoded entries that survive the radius filter and the deduper: the
  radius filter is applied to the decoded entries with the latitude, longitude and
  radius of the job's parameters; without a deduper its output is returned; with a
  deduper each filtered entry is offered to it in order, under its CID or, when the CID
  is empty, under title, a bar and address, and the admitted entries are returned. For
  a deduper that behaves as a set of recorded keys, these are the filtered entries whose
  key is neither recorded before the call nor the key of an earlier filtered entry, and
  \<open>n\<close> is the number of distinct keys of the filtered entries that were not recorded
  before. No other monitor receives a call.
\<close>

theorem Process_reports:
  assumes "Process deps uuid j respBody h = (Inr (entries, nextJobs), h')"
    and "ExitMonitor j = Some m"
  shows "exiterLog h' m =
           exiterLog h m
           @ (if nextJobs = [] then [] else [IncrPlacesFound 1])
           @ [if pageNum j = 0 then IncrSeedCompleted 1 else IncrPlacesCompleted 1,
              IncrPlacesFound (int (length entries)),
              IncrPlacesCompleted (int (length entries))]
         \<and> (\<exists>decoded. ParseSearchResults deps (removeFirstLine respBody) = Inr decoded \<and>
               entries = fst (survivors deps j decoded h) \<and>
               (let loc = Location (paramsOf h (params j));
                    filtered = filterAndSortEntriesWithinRadius deps decoded
                                 (Lat loc) (Lon loc) (Radius loc);
                    key = (\<lambda>e. if Cid e = [] then Title e @ ''|'' @ Address e else Cid e)
                in case Deduper j of
                     None \<Rightarrow> entries = filtered
                   | Some d \<Rightarrow>
                      entries = fst (dedupLoop (AddIfNotExists deps) (dedupOf h d) filtered) \<and>
                      ((\<forall>s k. fst (AddIfNotExists deps s k) = (k \<notin> keys s) \<and>
                              keys (snd (AddIfNotExists deps s k)) = insert k (keys s)) \<longrightarrow>
                       entries =
                         map (nth filtered)
                           (filter (\<lambda>i. key (filtered ! i) \<notin>
                                         keys (dedupOf h d) \<union> key ` set (take i filtered))
                              [0..<length filtered]) \<and>
                       length entries = card (key ` set filtered - keys (dedupOf h d)))))
         \<and> (\<forall>m'. m' \<noteq> m \<longrightarrow> exiterLog h' m' = exiterLog h m')"
proof -
  from assms(1) obtain decoded where
    d: "ParseSearchResults deps (removeFirstLine respBody) = Inr decoded"
    and e: "entries = fst (survivors deps j decoded h)"
    and nj: "nextJobs = fst (nextPageJobs uuid j (int (length decoded)) (snd (survivors deps j decoded h)))"
    and h': "h' = (let h2 = snd (nextPageJobs uuid j (int (length decoded)) (snd (survivors deps j decoded h)))
           in if ExitMonitor j \<noteq> None then reportPage j (int (length entries)) h2 else h2)"
    using Process_InrD by blast
  define h1 where "h1 = snd (survivors deps j decoded h)"
  define h2 where "h2 = snd (nextPageJobs uuid j (int (length decoded)) h1)"
  have h'2: "h' = reportPage j (int (length entries)) h2"
    using h' assms(2) by (simp add: h2_def h1_def Let_def)
  have l1: "exiterLog h1 = exiterLog h"
    by (simp add: h1_def exiterLog_survivors)
  have nj': "nextJobs = fst (nextPageJobs uuid j (int (length decoded)) h1)"
    by (simp add: nj h1_def)
  have l2: "exiterLog h2 m = exiterLog h m @ (if nextJobs = [] then [] else [IncrPlacesFound 1])"
    using exiterLog_nextPageJobs(1) [OF assms(2), of uuid "int (length decoded)" h1]
    by (simp add: h2_def nj' l1)
  have l2': "exiterLog h2 m' = exiterLog h m'" if "m' \<noteq> m" for m'
    using exiterLog_nextPageJobs(2) [OF assms(2) that, of uuid "int (length decoded)" h1]
    by (simp add: h2_def l1)
  have a: "exiterLog h' m =
           exiterLog h m
           @ (if nextJobs = [] then [] else [IncrPlacesFound 1])
           @ [if pageNum j = 0 then IncrSeedCompleted 1 else IncrPlacesCompleted 1,
              IncrPlacesFound (int (length entries)),
              IncrPlacesCompleted (int (length entries))]"
    by (simp add: h'2 exiterLog_reportPage(1) [OF assms(2)] l2)
  have c: "\<forall>m'. m' \<noteq> m \<longrightarrow> exiterLog h' m' = exiterLog h m'"
    by (simp add: h'2 exiterLog_reportPage(2) [OF assms(2)] l2')
  define filtered where "filtered = filterAndSortEntriesWithinRadius deps decoded
      (Lat (Location (paramsOf h (params j)))) (Lon (Location (paramsOf h (params j))))
      (Radius (Location (paramsOf h (params j))))"
  have k: "(\<lambda>e. if Cid e = [] then Title e @ ''|'' @ Address e else Cid e) = dedupKey"
    by (rule ext) (simp add: dedupKey_def)
  have s: "case Deduper j of
             None \<Rightarrow> entries = filtered
           | Some d \<Rightarrow>
              entries = fst (dedupLoop (AddIfNotExists deps) (dedupOf h d) filtered) \<and>
              ((\<forall>s k. fst (AddIfNotExists deps s k) = (k \<notin> keys s) \<and>
                      keys (snd (AddIfNotExists deps s k)) = insert k (keys s)) \<longrightarrow>
               entries =
                 map (nth filtered)
                   (filter (\<lambda>i. dedupKey (filtered ! i) \<notin>
                                 keys (dedupOf h d) \<union> dedupKey ` set (take i filtered))
                      [0..<length filtered]) \<and>
               length entries = card (dedupKey ` set filtered - keys (dedupOf h d)))"
  proof (cases "Deduper j")
    case None
    then show ?thesis
      by (simp add: e survivors_def filtered_def Let_def)
  next
    case (Some d)
    have e': "entries = fst (dedupLoop (AddIfNotExists deps) (dedupOf h d) filtered)"
      by (simp add: e survivors_def filtered_def Let_def Some split: prod.splits)
    show ?thesis
      unfolding Some option.case
      using e' dedupLoop_setlike [of "AddIfNotExists deps" keys "dedupOf h d" filtered]
        dedupLoop_count [of "AddIfNotExists deps" keys "dedupOf h d" filtered]
      by blast
  qed
  have b: "\<exists>decoded. ParseSearchResults deps (removeFirstLine respBody) = Inr decoded \<and>
               entries = fst (survivors deps j decoded h) \<and>
               (let loc = Location (paramsOf h (params j));
                    filtered = filterAndSortEntriesWithinRadius deps decoded
                                 (Lat loc) (Lon loc) (Radius loc);
                    key = (\<lambda>e. if Cid e = [] then Title e @ ''|'' @ Address e else Cid e)
                in case Deduper j of
                     None \<Rightarrow> entries = filtered
                   | Some d \<Rightarrow>
                      entries = fst (dedupLoop (AddIfNotExists deps) (dedupOf h d) filtered) \<and>
                      ((\<forall>s k. fst (AddIfNotExists deps s k) = (k \<notin> keys s) \<and>
                              keys (snd (AddIfNotExists deps s k)) = insert k (keys s)) \<longrightarrow>
                       entries =
                         map (nth filtered)
                           (filter (\<lambda>i. key (filtered ! i) \<notin>
                                         keys (dedupOf h d) \<union> key ` set (take i filtered))
                              [0..<length filtered]) \<and>
                       length entries = card (key ` set filtered - keys (dedupOf h d))))"
    unfolding Let_def k
    using d e s [unfolded filtered_def] by blast
  from a b c show ?thesis by blast
qed

lemma removeFirstLine_mixedPage: "removeFirstLine mixedPage = ''aabzcdefghijklmnopqr''"
  by (simp add: mixedPage_def removeFirstLine_def)

lemma Process_mixedPage_Inr:
  "\<exists>entries nextJobs h'.
     Process exampleDepsRadius ''c1'' exampleSeed mixedPage seenHeap = (Inr (entries, nextJobs), h')"
  by (simp add: Process_def removeFirstLine_mixedPage exampleDepsRadius_def exampleDeps_def
        Let_def split: prod.splits)

lemma mixedPage_survivors:
  "(let filtered = filter (\<lambda>e. Cid e \<noteq> ''z'')
                     (map (\<lambda>c. \<lparr>Cid = [c], Title = ''title'', Address = ''address''\<rparr>)
                        ''aabzcdefghijklmnopqr'');
        key = (\<lambda>e. if Cid e = [] then Title e @ ''|'' @ Address e else Cid e)
    in map (nth filtered)
         (filter (\<lambda>i. key (filtered ! i) \<notin> set [''b''] \<union> key ` set (take i filtered))
            [0..<length filtered])) =
   map (\<lambda>c. \<lparr>Cid = [c], Title = ''title'', Address = ''address''\<rparr>) ''acdefghijklmnopqr''"
  by code_simp

lemma admitKey_setlike:
  "\<forall>s k. fst (admitKey s k) = (k \<notin> set s) \<and> set (snd (admitKey s k)) = insert k (set s)"
  by (auto simp: admitKey_def)

theorem Process_reports_witness:
  "\<exists>entries nextJobs h'.
     Process exampleDepsRadius ''c1'' exampleSeed mixedPage seenHeap = (Inr (entries, nextJobs), h') \<and>
     rawCountOf exampleDepsRadius mixedPage = 20 \<and>
     entries = map (\<lambda>c. \<lparr>Cid = [c], Title = ''title'', Address = ''address''\<rparr>)
                 ''acdefghijklmnopqr'' \<and>
     exiterLog h' 0 =
       [IncrPlacesFound 1, IncrSeedCompleted 1, IncrPlacesFound 17, IncrPlacesCompleted 17]"
proof -
  obtain entries nextJobs h' where
    p: "Process exampleDepsRadius ''c1'' exampleSeed mixedPage seenHeap = (Inr (entries, nextJobs), h')"
    using Process_mixedPage_Inr by blast
  note t = Process_reports [where keys = set, OF p exampleSeed_fields(4)]
  from t obtain decoded where
    d: "ParseSearchResults exampleDepsRadius (removeFirstLine mixedPage) = Inr decoded"
    and c: "let loc = Location (paramsOf seenHeap (params exampleSeed));
                filtered = filterAndSortEntriesWithinRadius exampleDepsRadius decoded
                             (Lat loc) (Lon loc) (Radius loc);
                key = (\<lambda>e. if Cid e = [] then Title e @ ''|'' @ Address e else Cid e)
            in case Deduper exampleSeed of
                 None \<Rightarrow> entries = filtered
               | Some d \<Rightarrow>
                  entries = fst (dedupLoop (AddIfNotExists exampleDepsRadius)
                                   (dedupOf seenHeap d) filtered) \<and>
                  ((\<forall>s k. fst (AddIfNotExists exampleDepsRadius s k) = (k \<notin> set s) \<and>
                          set (snd (AddIfNotExists exampleDepsRadius s k)) = insert k (set s)) \<longrightarrow>
                   entries =
                     map (nth filtered)
                       (filter (\<lambda>i. key (filtered ! i) \<notin>
                                     set (dedupOf seenHeap d) \<union> key ` set (take i filtered))
                          [0..<length filtered]) \<and>
                   length entries = card (key ` set filtered - set (dedupOf seenHeap d)))"
    by blast
  have dec: "decoded = map (\<lambda>c. \<lparr>Cid = [c], Title = ''title'', Address = ''address''\<rparr>)
                          ''aabzcdefghijklmnopqr''"
    using d by (simp add: removeFirstLine_mixedPage exampleDepsRadius_def exampleDeps_def)
  have f: "filterAndSortEntriesWithinRadius exampleDepsRadius =
             (\<lambda>es lat lon radius. filter (\<lambda>e. Cid e \<noteq> ''z'') es)"
    and a: "AddIfNotExists exampleDepsRadius = admitKey"
    and s: "dedupOf seenHeap = (\<lambda>r. [''b''])"
    by (simp_all add: exampleDepsRadius_def exampleDeps_def seenHeap_def)
  from c [unfolded Let_def exampleSeed_fields(5) option.case a f s dec, THEN conjunct2,
      THEN mp, OF admitKey_setlike, THEN conjunct1]
  have e: "entries = map (\<lambda>c. \<lparr>Cid = [c], Title = ''title'', Address = ''address''\<rparr>)
                       ''acdefghijklmnopqr''"
    using mixedPage_survivors [unfolded Let_def] by (simp only:)
  have n: "nextJobs \<noteq> []"
    using p by (auto simp: Process_def removeFirstLine_mixedPage exampleDepsRadius_def exampleDeps_def
        nextPageJobs_def exampleSeed_fields resultsPerPage_def wrap64_def Let_def
        split: prod.splits)
  have r: "rawCountOf exampleDepsRadius mixedPage = 20"
    by (simp add: rawCountOf_def removeFirstLine_mixedPage exampleDepsRadius_def exampleDeps_def)
  have l: "exiterLog h' 0 =
       [IncrPlacesFound 1, IncrSeedCompleted 1, IncrPlacesFound 17, IncrPlacesCompleted 17]"
    using t [THEN conjunct1] n
    by (simp add: e exampleSeed_fields seenHeap_def exampleHeap_def)
  from p r e l show ?thesis by blast
qed


text \<open>
  Claim C8. \<^verbatim>\<open>removeFirstLine\<close> drops everything up to and including the first newline
  (the whole body when it has no newline). When the remainder is empty,
  \<^verbatim>\<open>SearchJob.Process\<close> returns the error "empty response body", hence no entries and no
  child jobs, and leaves the shared heap (parameters, deduper, exit monitor) as it was:
  the failure touches nothing but this job, and the error value goes back to the
  caller, the dispatch engine.
\<close>

theorem removeFirstLine_empty_body:
  "(CHR 0x0A \<notin> set pre \<longrightarrow> removeFirstLine (pre @ CHR 0x0A # post) = post) \<and>
   (CHR 0x0A \<notin> set data \<longrightarrow> removeFirstLine data = []) \<and>
   (removeFirstLine respBody = [] \<longrightarrow>
      Process deps uuid j respBody h = (Inl (Errorf ''empty response body''), h))"
  by (simp add: removeFirstLine_split removeFirstLine_no_newline Process_empty)

theorem removeFirstLine_empty_body_witness:
  "removeFirstLine (''xssi'' @ CHR 0x0A # ''abc'') = ''abc'' \<and>
   removeFirstLine ''no newline'' = [] \<and>
   Process exampleDeps ''c1'' exampleSeed (''xssi'' @ [CHR 0x0A]) exampleHeap =
     (Inl (Errorf ''empty response body''), exampleHeap)"
proof -
  have a: "CHR 0x0A \<notin> set ''xssi''" by simp
  have b: "CHR 0x0A \<notin> set ''no newline''" by simp
  have c: "removeFirstLine (''xssi'' @ [CHR 0x0A]) = []"
    by (simp add: removeFirstLine_def)
  show ?thesis
    using removeFirstLine_empty_body [of "''xssi''" "''abc''" "''no newline''"
        "''xssi'' @ [CHR 0x0A]" exampleDeps "''c1''" exampleSeed exampleHeap] a b c
    by blast
qed

lemma applyOption_fields:
  "pageNum (applyOption opt j) = pageNum j"
  "offset (applyOption opt j) = offset j"
  by (cases opt; simp)+

lemma applyOption_maxPages:
  "1 \<le> maxPages j \<and> maxPages j \<le> maxPaginationPages \<Longrightarrow>
   1 \<le> maxPages (applyOption opt j) \<and> maxPages (applyOption opt j) \<le> maxPaginationPages"
  by (cases opt) auto

lemma foldl_applyOption:
  "1 \<le> maxPages j \<and> maxPages j \<le> maxPaginationPages \<Longrightarrow>
   (let j' = foldl (\<lambda>j opt. applyOption opt j) j opts
    in pageNum j' = pageNum j \<and> offset j' = offset j \<and>
       1 \<le> maxPages j' \<and> maxPages j' \<le> maxPaginationPages)"
proof (induction opts arbitrary: j)
  case Nil
  then show ?case by simp
next
  case (Cons opt opts)
  from Cons.IH [OF applyOption_maxPages [OF Cons.prems, of opt]]
  show ?case by (simp add: Let_def applyOption_fields)
qed

lemma NewSearchJob_valid:
  assumes "NewSearchJob PriorityMedium uuid p opts h0 = (j, h1)"
  shows "validJob j \<and> pageNum j = 0 \<and> 1 \<le> maxPages j"
proof -
  define job0 :: SearchJob where "job0 =
     \<lparr>Job = \<lparr>ID = uuid, Method = ''GET'', URL = ''https://maps.google.com/search'',
                          URLParams = [], MaxRetries = 1, Priority = PriorityMedium\<rparr>,
                   params = p, ExitMonitor = None, Deduper = None, SearchDelay = 0,
                   offset = 0, pageNum = 0, maxPages = maxPaginationPages\<rparr>"
  define job1 where "job1 = foldl (\<lambda>j opt. applyOption opt j) job0 opts"
  have "1 \<le> maxPages job0 \<and> maxPages job0 \<le> maxPaginationPages"
    by (simp add: job0_def maxPaginationPages_def)
  from foldl_applyOption [OF this, of opts]
  have f: "pageNum job1 = 0" "offset job1 = 0" "1 \<le> maxPages job1"
    "maxPages job1 \<le> maxPaginationPages"
    by (simp_all add: Let_def job1_def job0_def)
  from assms have "j = job1\<lparr>Job := (Job job1)\<lparr>URLParams :=
      fst (buildGoogleMapsParams p (offset job1) h0)\<rparr>\<rparr>"
    by (auto simp: NewSearchJob_def Let_def job1_def job0_def split: prod.splits)
  with f show ?thesis
    by (simp add: validJob_def)
qed

lemma child_valid:
  assumes "Process deps uuid j respBody h = (Inr (entries, child # siblings), h')"
    and "validJob j"
  shows "validJob child \<and> pageNum child = pageNum j + 1 \<and> maxPages child = maxPages j"
proof -
  from assms(1) obtain decoded where
    nj: "child # siblings =
      fst (nextPageJobs uuid j (int (length decoded)) (snd (survivors deps j decoded h)))"
    using Process_InrD by blast
  then show ?thesis
    using assms(2)
    by (auto simp: nextPageJobs_cases [OF assms(2)] validJob_def resultsPerPage_def
          split: if_splits prod.splits)
qed

lemma paginate_length:
  "validJob j \<Longrightarrow> int (length (paginate deps j resps h)) \<le> maxPages j - pageNum j"
proof (induction resps arbitrary: j h)
  case Nil
  then show ?case by (simp add: validJob_def)
next
  case (Cons r resps)
  obtain uuid respBody others where r: "r = (uuid, respBody, others)"
    by (cases r)
  obtain res h' where p: "Process deps uuid j respBody (others h) = (res, h')"
    by (cases "Process deps uuid j respBody (others h)")
  show ?case
  proof (cases res)
    case (Inl e)
    with p r Cons.prems show ?thesis by (simp add: validJob_def)
  next
    case (Inr pr)
    obtain entries nextJobs where pr: "pr = (entries, nextJobs)"
      by (cases pr)
    show ?thesis
    proof (cases nextJobs)
      case Nil
      with p r Inr pr Cons.prems show ?thesis by (simp add: validJob_def)
    next
      case (Cons child siblings)
      with p Inr pr have p': "Process deps uuid j respBody (others h) =
          (Inr (entries, child # siblings), h')" by simp
      from child_valid [OF p' Cons.prems]
      have v: "validJob child" and n: "pageNum child = pageNum j + 1"
        and m: "maxPages child = maxPages j" by simp_all
      from Cons.IH [OF v, of h'] n m p' r show ?thesis by simp
    qed
  qed
qed

lemma paginate_pages:
  "validJob j \<Longrightarrow> (pj, body) \<in> set (paginate deps j resps h) \<Longrightarrow>
   validJob pj \<and> maxPages pj = maxPages j \<and> body \<in> (\<lambda>r. fst (snd r)) ` set resps"
proof (induction resps arbitrary: j h)
  case Nil
  then show ?case by simp
next
  case (Cons r resps)
  obtain uuid respBody others where r: "r = (uuid, respBody, others)"
    by (cases r)
  obtain res h' where p: "Process deps uuid j respBody (others h) = (res, h')"
    by (cases "Process deps uuid j respBody (others h)")
  show ?case
  proof (cases res)
    case (Inl e)
    with p r Cons.prems show ?thesis by simp
  next
    case (Inr pr)
    obtain entries nextJobs where pr: "pr = (entries, nextJobs)"
      by (cases pr)
    show ?thesis
    proof (cases nextJobs)
      case Nil
      with p r Inr pr Cons.prems show ?thesis by simp
    next
      case (Cons child siblings)
      with p Inr pr have p': "Process deps uuid j respBody (others h) =
          (Inr (entries, child # siblings), h')" by simp
      from child_valid [OF p' Cons.prems(1)]
      have v: "validJob child" and m: "maxPages child = maxPages j" by simp_all
      from Cons.prems(2) p' r
      consider "(pj, body) = (j, respBody)" | "(pj, body) \<in> set (paginate deps child resps h')"
        by auto
      then show ?thesis
      proof cases
        case 1
        with Cons.prems(1) r show ?thesis by simp
      next
        case 2
        from Cons.IH [OF v 2] m r show ?thesis by auto
      qed
    qed
  qed
qed

lemma sum_list_bounded:
  "(\<And>x. x \<in> set xs \<Longrightarrow> f x \<le> (c::nat)) \<Longrightarrow> sum_list (map f xs) \<le> length xs * c"
  by (induction xs) (simp, fastforce)


text \<open>
  Claim C5, amended. A job built by \<^verbatim>\<open>NewSearchJob\<close> with any options has a page limit
  between 1 and the hard cap 6; \<^verbatim>\<open>WithSearchJobMaxPages n\<close> sets the limit only for \<open>n\<close>
  from 1 to 6 and leaves the limit in place otherwise (the default 6 on a new job). The
  chain of pages of the job has at most as many pages as the limit, whatever the
  responses and whatever other jobs do to the shared heap in between; every page of the
  chain has a page number from 0 below the limit and the offset page number times 20, so
  the records a chain asks for (20 from each offset) lie below limit times 20, at most
  120. When no response decodes to more than the 20 entries a page asks for, the chain
  decodes at most limit times 20, at most 120, entries.
\<close>

theorem pagination_bound:
  assumes "NewSearchJob PriorityMedium uuid p opts h0 = (j, h1)"
  shows "1 \<le> maxPages j \<and> maxPages j \<le> maxPaginationPages \<and>
     maxPages (applyOption (WithSearchJobMaxPages n) j0) =
       (if 1 \<le> n \<and> n \<le> 6 then n else maxPages j0) \<and>
     maxPages (fst (NewSearchJob PriorityMedium uuid p [WithSearchJobMaxPages n] h0)) =
       (if 1 \<le> n \<and> n \<le> 6 then n else 6) \<and>
     int (length (paginate deps j resps h)) \<le> maxPages j \<and>
     (\<forall>(pj, body) \<in> set (paginate deps j resps h).
        0 \<le> pageNum pj \<and> pageNum pj < maxPages j \<and>
        offset pj = pageNum pj * resultsPerPage \<and>
        offset pj + resultsPerPage \<le> maxPages j * resultsPerPage \<and>
        maxPages j * resultsPerPage \<le> 120) \<and>
     ((\<forall>r \<in> set resps. rawCountOf deps (fst (snd r)) \<le> 20) \<longrightarrow>
        sum_list (map (\<lambda>(pj, body). rawCountOf deps body) (paginate deps j resps h))
          \<le> nat (maxPages j) * 20 \<and>
        nat (maxPages j) * 20 \<le> 120)"
proof -
  from NewSearchJob_valid [OF assms]
  have v: "validJob j" and z: "pageNum j = 0" and one: "1 \<le> maxPages j"
    by simp_all
  from v have six: "maxPages j \<le> maxPaginationPages"
    by (simp add: validJob_def)
  have opt: "maxPages (applyOption (WithSearchJobMaxPages n) j0) =
       (if 1 \<le> n \<and> n \<le> 6 then n else maxPages j0)"
    by (simp add: maxPaginationPages_def)
  have new: "maxPages (fst (NewSearchJob PriorityMedium uuid p [WithSearchJobMaxPages n] h0)) =
       (if 1 \<le> n \<and> n \<le> 6 then n else 6)"
    by (simp add: NewSearchJob_def maxPaginationPages_def Let_def split: prod.splits)
  have len: "int (length (paginate deps j resps h)) \<le> maxPages j"
    using paginate_length [OF v, of deps resps h] z by simp
  have pages: "\<forall>(pj, body) \<in> set (paginate deps j resps h).
        0 \<le> pageNum pj \<and> pageNum pj < maxPages j \<and>
        offset pj = pageNum pj * resultsPerPage \<and>
        offset pj + resultsPerPage \<le> maxPages j * resultsPerPage \<and>
        maxPages j * resultsPerPage \<le> 120"
  proof (clarify)
    fix pj body assume "(pj, body) \<in> set (paginate deps j resps h)"
    from paginate_pages [OF v this]
    have "validJob pj" and m: "maxPages pj = maxPages j" by simp_all
    then have "0 \<le> pageNum pj" "pageNum pj < maxPages j"
      "offset pj = pageNum pj * resultsPerPage"
      by (simp_all add: validJob_def)
    with six show "0 \<le> pageNum pj \<and> pageNum pj < maxPages j \<and>
        offset pj = pageNum pj * resultsPerPage \<and>
        offset pj + resultsPerPage \<le> maxPages j * resultsPerPage \<and>
        maxPages j * resultsPerPage \<le> 120"
      by (simp add: resultsPerPage_def maxPaginationPages_def)
  qed
  have recs: "sum_list (map (\<lambda>(pj, body). rawCountOf deps body) (paginate deps j resps h))
          \<le> nat (maxPages j) * 20 \<and> nat (maxPages j) * 20 \<le> 120"
    if b: "\<forall>r \<in> set resps. rawCountOf deps (fst (snd r)) \<le> 20"
  proof -
    have "(case x of (pj, body) \<Rightarrow> rawCountOf deps body) \<le> 20"
      if "x \<in> set (paginate deps j resps h)" for x
    proof -
      obtain pj body where x: "x = (pj, body)" by (cases x)
      with that paginate_pages [OF v, of pj body deps resps h]
      have "body \<in> (\<lambda>r. fst (snd r)) ` set resps" by simp
      with b x show ?thesis by auto
    qed
    then have "sum_list (map (\<lambda>(pj, body). rawCountOf deps body) (paginate deps j resps h))
        \<le> length (paginate deps j resps h) * 20"
      by (rule sum_list_bounded)
    moreover have "length (paginate deps j resps h) \<le> nat (maxPages j)"
      using len by simp
    moreover have "nat (maxPages j) \<le> 6"
      using six by (simp add: maxPaginationPages_def)
    ultimately show ?thesis by simp
  qed
  from one six opt new len pages recs show ?thesis by blast
qed


lemma paginate_example:
  "map (\<lambda>(pj, body). (pageNum pj, offset pj))
     (paginate exampleDeps exampleSeed
        [(''c1'', fullPage, id), (''c2'', fullPage, id), (''c3'', fullPage, id)]
        exampleHeap) = [(0, 0), (1, 20)]"
  by code_simp

theorem pagination_bound_witness:
  "maxPages exampleSeed = 2 \<and>
   map (\<lambda>(pj, body). (pageNum pj, offset pj))
     (paginate exampleDeps exampleSeed
        [(''c1'', fullPage, id), (''c2'', fullPage, id), (''c3'', fullPage, id)]
        exampleHeap) = [(0, 0), (1, 20)] \<and>
   length (paginate exampleDeps exampleSeed
      [(''c1'', fullPage, id), (''c2'', fullPage, id), (''c3'', fullPage, id)]
      exampleHeap) \<le> 2 \<and>
   sum_list (map (\<lambda>(pj, body). rawCountOf exampleDeps body)
     (paginate exampleDeps exampleSeed
      [(''c1'', fullPage, id), (''c2'', fullPage, id), (''c3'', fullPage, id)]
      exampleHeap)) \<le> 40"
proof -
  have n: "NewSearchJob 1 ''seed'' 0
            [WithSearchJobDeduper (Some 0), WithSearchJobExitMonitor (Some 0),
             WithSearchJobMaxPages 2] exampleHeap =
           (exampleSeed, snd (NewSearchJob 1 ''seed'' 0
            [WithSearchJobDeduper (Some 0), WithSearchJobExitMonitor (Some 0),
             WithSearchJobMaxPages 2] exampleHeap))"
    by (simp add: exampleSeed_def)
  have b: "\<forall>r \<in> set [(''c1'', fullPage, id :: string list heap \<Rightarrow> string list heap),
       (''c2'', fullPage, id), (''c3'', fullPage, id)].
       rawCountOf exampleDeps (fst (snd r)) \<le> 20"
    by (simp add: rawCountOf_fullPage)
  show ?thesis
    using pagination_bound [OF n, of 2 exampleSeed exampleDeps
       "[(''c1'', fullPage, id), (''c2'', fullPage, id), (''c3'', fullPage, id)]"
       exampleHeap] b paginate_example
    by (simp add: exampleSeed_fields)
qed

text \<open>
  Claim C5 as stated fails on the code: \<^verbatim>\<open>Process\<close> takes every entry a response decodes
  to and never cuts a page down to the 20 it asked for. A job with the page limit 1
  whose only response decodes to 21 entries fetches 21 raw records, more than 1 times
  20; the number of pages stays within the limit.
\<close>

theorem pagination_counterexample:
  "maxPages exampleSingle = 1 \<and>
   map (\<lambda>(pj, body). (pageNum pj, offset pj, rawCountOf exampleDeps body))
     (paginate exampleDeps exampleSingle [(''c1'', longPage, id)] exampleHeap) = [(0, 0, 21)] \<and>
   \<not> sum_list (map (\<lambda>(pj, body). rawCountOf exampleDeps body)
          (paginate exampleDeps exampleSingle [(''c1'', longPage, id)] exampleHeap))
       \<le> nat (maxPages exampleSingle) * 20"
  by code_simp

section \<open>Properties of the shard merger\<close>

subsection \<open>Shard names and their order\<close>


lemma itoa_simp: "itoa n = (if n < 10 then [digitChar n] else itoa (n div 10) @ [digitChar (n mod 10)])"
  by (rule itoa.simps)

declare itoa.simps [simp del]

lemma itoa_not_Nil: "itoa n \<noteq> []"
  by (subst itoa_simp) simp

lemma of_char_digitChar: "d < 10 \<Longrightarrow> (of_char (digitChar d) :: nat) = 48 + d"
  by (simp add: digitChar_def)

lemma digitChar_inj:
  assumes "a < 10" and "b < 10" and "digitChar a = digitChar b"
  shows "a = b"
proof -
  from assms(3) have "(of_char (digitChar a) :: nat) = of_char (digitChar b)"
    by simp
  with assms(1,2) show ?thesis
    by (simp add: of_char_digitChar)
qed

lemma itoa_inj: "itoa m = itoa n \<Longrightarrow> m = n"
proof (induction m arbitrary: n rule: itoa.induct)
  case (1 m)
  show ?case
  proof (cases "m < 10")
    case True
    then have m: "itoa m = [digitChar m]" by (subst itoa_simp) simp
    show ?thesis
    proof (cases "n < 10")
      case True
      then have "itoa n = [digitChar n]" by (subst itoa_simp) simp
      with m "1.prems" \<open>m < 10\<close> True show ?thesis
        by (auto dest: digitChar_inj)
    next
      case False
      then have "itoa n = itoa (n div 10) @ [digitChar (n mod 10)]"
        by (subst itoa_simp) simp
      with m "1.prems" itoa_not_Nil [of "n div 10"] show ?thesis by (cases "itoa (n div 10)") auto
    qed
  next
    case False
    then have m: "itoa m = itoa (m div 10) @ [digitChar (m mod 10)]"
      by (subst itoa_simp) simp
    show ?thesis
    proof (cases "n < 10")
      case True
      then have "itoa n = [digitChar n]" by (subst itoa_simp) simp
      with m "1.prems" itoa_not_Nil [of "m div 10"] show ?thesis by (cases "itoa (m div 10)") auto
    next
      case n: False
      then have "itoa n = itoa (n div 10) @ [digitChar (n mod 10)]"
        by (subst itoa_simp) simp
      with m "1.prems" have e: "itoa (m div 10) = itoa (n div 10)"
        and d: "digitChar (m mod 10) = digitChar (n mod 10)" by simp_all
      from "1.IH" [OF False e] have "m div 10 = n div 10" .
      moreover from d have "m mod 10 = n mod 10"
        by (rule digitChar_inj [rotated 2]) simp_all
      ultimately show ?thesis
        by (metis div_mult_mod_eq)
    qed
  qed
qed


lemma append_le_append: "(xs @ a \<le> xs @ b) = (a \<le> (b :: 'a :: linorder list))"
  by (induction xs) simp_all

lemma append_less_append: "(xs @ a < xs @ b) = (a < (b :: 'a :: linorder list))"
  by (induction xs) simp_all

lemma digitChar_less: "a < 10 \<Longrightarrow> b < 10 \<Longrightarrow> (digitChar a < digitChar b) = (a < b)"
  by (simp add: less_char_def of_char_digitChar)

lemma dot_less_digitChar: "e < 10 \<Longrightarrow> CHR ''.'' < digitChar e"
  by (simp add: less_char_def of_char_digitChar)

lemma itoa_leading:
  "1 \<le> n \<Longrightarrow> \<exists>d rest. itoa n = digitChar d # rest \<and> 1 \<le> d \<and> d < 10 \<and>
     (\<forall>c \<in> set rest. \<exists>e < 10. c = digitChar e)"
proof (induction n rule: itoa.induct)
  case (1 n)
  show ?case
  proof (cases "n < 10")
    case True
    then have "itoa n = [digitChar n]" by (subst itoa_simp) simp
    with True "1.prems" show ?thesis by auto
  next
    case False
    then have n: "itoa n = itoa (n div 10) @ [digitChar (n mod 10)]"
      by (subst itoa_simp) simp
    from False have "1 \<le> n div 10" by simp
    from "1.IH" [OF False this] obtain d rest where
      i: "itoa (n div 10) = digitChar d # rest" "1 \<le> d" "d < 10"
      "\<forall>c \<in> set rest. \<exists>e < 10. c = digitChar e" by blast
    have "\<exists>e < 10. digitChar (n mod 10) = digitChar e"
      by (rule exI [of _ "n mod 10"]) simp
    with i n have "itoa n = digitChar d # (rest @ [digitChar (n mod 10)]) \<and> 1 \<le> d \<and> d < 10 \<and>
      (\<forall>c \<in> set (rest @ [digitChar (n mod 10)]). \<exists>e < 10. c = digitChar e)"
      by auto
    then show ?thesis by blast
  qed
qed

lemma itoa_one_least:
  assumes "1 \<le> n"
  shows "itoa 1 @ ''.csv'' \<le> itoa n @ ''.csv''"
proof -
  from itoa_leading [OF assms] obtain d rest where
    i: "itoa n = digitChar d # rest" "1 \<le> d" "d < 10"
    "\<forall>c \<in> set rest. \<exists>e < 10. c = digitChar e" by blast
  have one: "itoa 1 = [digitChar 1]" by (subst itoa_simp) simp
  show ?thesis
  proof (cases "d = 1")
    case True
    have "''.csv'' \<le> rest @ ''.csv''"
    proof (cases rest)
      case Nil
      then show ?thesis by simp
    next
      case (Cons c r)
      with i(4) obtain e where "e < 10" "c = digitChar e" by auto
      with Cons dot_less_digitChar [of e] show ?thesis by simp
    qed
    with True i(1) one show ?thesis by simp
  next
    case False
    with i(2,3) have "digitChar 1 < digitChar d"
      by (simp add: digitChar_less)
    with i(1) one show ?thesis by simp
  qed
qed

lemma formatInt_nat: "formatInt (int n) = itoa n"
  by (simp add: formatInt_def)

lemma shardName_nat: "shardName base (int n) = base @ ''_'' @ itoa n @ ''.csv''"
  by (simp add: shardName_def formatInt_nat)

lemma shardName_inj: "shardName base (int m) = shardName base (int n) \<Longrightarrow> m = n"
  by (simp add: shardName_nat itoa_inj)

lemma shardName_one_least: "1 \<le> n \<Longrightarrow> shardName base 1 \<le> shardName base (int n)"
  using shardName_nat [of base 1] itoa_one_least [of n]
  by (simp add: shardName_nat append_le_append)

lemma shardName_digit_less:
  assumes "m < n" and "n < 10"
  shows "shardName base (int m) < shardName base (int n)"
proof -
  from assms have "itoa m = [digitChar m]" "itoa n = [digitChar n]"
    by (subst itoa_simp, simp)+
  with assms show ?thesis
    by (simp add: shardName_nat append_less_append digitChar_less)
qed

lemma shardName_matches: "matchesPattern jobID (shardName jobID (int n))"
  using itoa_not_Nil [of n]
  by (cases "itoa n") (simp_all add: matchesPattern_def shardName_nat)

lemma output_not_matches: "\<not> matchesPattern jobID (jobID @ ''.csv'')"
  by (simp add: matchesPattern_def)


subsection \<open>The folder and the merge loop\<close>

lemma map_of_removeFile:
  "map_of (removeFile p fs) q = (if q = p then None else map_of fs q)"
  by (induction fs) (auto simp: removeFile_def)

lemma map_of_writeFile:
  "map_of (writeFile p f fs) q = (if q = p then Some f else map_of fs q)"
  using map_of_removeFile [of p fs q]
  by (simp add: writeFile_def removeFile_def)

lemma map_of_removeFiles:
  "map_of (foldl (\<lambda>f m. removeFile m f) fs ms) q = (if q \<in> set ms then None else map_of fs q)"
  by (induction ms arbitrary: fs) (simp_all add: map_of_removeFile)

lemma mergeLoop_shards:
  assumes "\<forall>n \<in> set ns. readCSVWithBOM fs (name n) = Inr (header n # rows n)"
  shows "mergeLoop fs (map name ns) (out, cnt, written) =
     (if ns = [] then out
      else (if written then out else out @ [header (hd ns)]) @ concat (map rows ns),
      cnt + (\<Sum>n\<leftarrow>ns. int (length (rows n))),
      written \<or> ns \<noteq> [])"
  using assms
proof (induction ns arbitrary: out cnt written)
  case Nil
  then show ?case by simp
next
  case (Cons n ns)
  then have r: "readCSVWithBOM fs (name n) = Inr (header n # rows n)"
    and rest: "\<forall>n \<in> set ns. readCSVWithBOM fs (name n) = Inr (header n # rows n)"
    by simp_all
  show ?case
    by (simp add: r Cons.IH [OF rest])
qed

lemma sorted_hd_least: "sorted xs \<Longrightarrow> x \<in> set xs \<Longrightarrow> hd xs \<le> x"
  by (cases xs) auto

lemma ex_order:
  assumes "distinct xs" and "set xs = f ` A" and "inj_on f A"
  shows "\<exists>order. map f order = xs \<and> distinct order \<and> set order = A"
proof -
  define order where "order = map (the_inv_into A f) xs"
  have "f (the_inv_into A f x) = x" if "x \<in> set xs" for x
    using that assms(2,3) by (simp add: f_the_inv_into_f)
  then have 1: "map f order = xs"
    unfolding order_def by (simp add: map_idI)
  have 2: "distinct order"
    using assms(1) 1 by (metis distinct_map)
  have 3: "set order = A"
    unfolding order_def using assms(2,3)
    by (auto simp: the_inv_into_f_f image_iff) 
  from 1 2 3 show ?thesis by blast
qed


lemma sum_list_order:
  "distinct order \<Longrightarrow> set order = {1..k} \<Longrightarrow>
   (\<Sum>n\<leftarrow>order. int (length (rows n))) = (\<Sum>i = 1..k. int (length (rows i)))"
  by (metis sum_list_distinct_conv_sum_set)

lemma mergeCSVFiles_no_shards:
  "glob fs jobID = [] \<Longrightarrow> mergeCSVFiles creatable fs jobID = ((0, None), fs)"
  by (simp add: mergeCSVFiles_def)

lemma mergeCSVFiles_general:
  fixes header :: "nat \<Rightarrow> string list" and rows :: "nat \<Rightarrow> string list list"
  assumes d: "distinct (map fst fs)"
    and g: "set (glob fs jobID) = (\<lambda>i. shardName jobID (int i)) ` {1..k}"
    and r: "\<forall>i \<in> {1..k}. map_of fs (shardName jobID (int i)) = Some (Records (header i # rows i))"
    and c: "creatable (jobID @ ''.csv'')"
    and k: "1 \<le> k"
  shows "\<exists>order. map (\<lambda>i. shardName jobID (int i)) order = sort (glob fs jobID) \<and>
           distinct order \<and> set order = {1..k} \<and> hd order = 1 \<and>
           mergeCSVFiles creatable fs jobID =
             ((\<Sum>i = 1..k. int (length (rows i)), None),
              foldl (\<lambda>f m. removeFile m f)
                (writeFile (jobID @ ''.csv'') (Records (header 1 # concat (map rows order)))
                   (writeFile (jobID @ ''.csv'') (Records []) fs))
                (sort (glob fs jobID)))"
proof -
  let ?name = "\<lambda>i. shardName jobID (int i)"
  let ?out = "jobID @ ''.csv''"
  let ?xs = "sort (glob fs jobID)"
  have dg: "distinct (glob fs jobID)"
    using d by (simp add: glob_def)
  have inj: "inj_on ?name {1..k}"
    by (rule inj_onI) (rule shardName_inj)
  from ex_order [of ?xs ?name "{1..k}"] dg g inj
  obtain order where o: "map ?name order = ?xs" "distinct order" "set order = {1..k}"
    by auto
  from k o(3) have ne: "order \<noteq> []" by auto
  have hd1: "hd order = 1"
  proof -
    have "1 \<in> set order" using k o(3) by simp
    then have "?name 1 \<in> set ?xs" using o(1) by (metis image_eqI set_map)
    then have "hd ?xs \<le> ?name 1"
      by (intro sorted_hd_least) simp_all
    moreover have "hd ?xs = ?name (hd order)"
      using o(1) ne by (metis hd_map)
    moreover have "1 \<le> hd order"
      using ne o(3) by (metis atLeastAtMost_iff hd_in_set)
    then have "?name 1 \<le> ?name (hd order)"
      using shardName_one_least [of "hd order" jobID] by simp
    ultimately have "?name (hd order) = ?name 1" by simp
    then show ?thesis by (rule shardName_inj)
  qed
  let ?fs1 = "writeFile ?out (Records []) fs"
  have rd: "\<forall>n \<in> set order. readCSVWithBOM ?fs1 (?name n) = Inr (header n # rows n)"
  proof
    fix n assume "n \<in> set order"
    then have n: "n \<in> {1..k}" using o(3) by simp
    have "?name n \<noteq> ?out"
      using shardName_matches [of jobID n] output_not_matches [of jobID] by auto
    with r n show "readCSVWithBOM ?fs1 (?name n) = Inr (header n # rows n)"
      by (simp add: readCSVWithBOM_def map_of_writeFile)
  qed
  have ml: "mergeLoop ?fs1 ?xs ([], 0, False) =
      (header 1 # concat (map rows order), \<Sum>i = 1..k. int (length (rows i)), True)"
    using mergeLoop_shards [OF rd, of "[]" 0 False] ne hd1
    by (simp add: o(1) sum_list_order [OF o(2,3)])
  have gne: "glob fs jobID \<noteq> []"
    using g k by auto
  have "mergeCSVFiles creatable fs jobID =
             ((\<Sum>i = 1..k. int (length (rows i)), None),
              foldl (\<lambda>f m. removeFile m f)
                (writeFile ?out (Records (header 1 # concat (map rows order))) ?fs1) ?xs)"
    using gne c by (simp add: mergeCSVFiles_def Let_def ml)
  with o hd1 show ?thesis by blast
qed


lemma single_digit_order:
  assumes "k \<le> 9"
    and "map (\<lambda>i. shardName jobID (int i)) order = sort matches"
    and "distinct order" and "set order = {1..k}"
  shows "order = [1..<Suc k]"
proof -
  let ?name = "\<lambda>i. shardName jobID (int i)"
  have "sorted_wrt (\<lambda>i j. ?name i < ?name j) [1..<Suc k]"
  proof (rule sorted_wrt_mono_rel [OF _ sorted_wrt_upt])
    fix x y :: nat
    assume "y \<in> set [1..<Suc k]" and xy: "x < y"
    then have "y \<le> k"
      by (simp only: set_upt atLeastLessThan_iff less_Suc_eq_le)
    with assms(1) have "y < 10" by simp
    with xy show "?name x < ?name y"
      by (rule shardName_digit_less)
  qed
  then have "sorted_wrt (<) (map ?name [1..<Suc k])"
    by (simp only: sorted_wrt_map)
  then have s: "sorted (map ?name [1..<Suc k])" and d: "distinct (map ?name [1..<Suc k])"
    by (simp_all only: strict_sorted_iff)
  have i: "inj_on ?name (set order \<union> set [1..<Suc k])"
    by (rule inj_onI) (rule shardName_inj)
  have i': "inj_on ?name (set order)"
    by (rule inj_onI) (rule shardName_inj)
  have e: "set order = set [1..<Suc k]"
    by (simp only: assms(4) set_upt atLeastLessThanSuc_atLeastAtMost)
  show ?thesis
  proof (rule map_sorted_distinct_set_unique [OF i _ _ s d e])
    show "sorted (map ?name order)" by (simp only: assms(2) sorted_sort)
    show "distinct (map ?name order)"
      using assms(3) i' by (simp only: distinct_map simp_thms)
  qed
qed


text \<open>
  Claim C1, amended. Let the files of the data folder that match the pattern of run
  \<open>jobID\<close> be exactly the shards 1 to \<open>k\<close>, each readable with a header row followed by
  its data rows, and let the merged file be creatable. Then \<^verbatim>\<open>mergeCSVFiles\<close> returns no
  error and the sum of the shards' data-row counts, deletes every shard and leaves
  every file alone that is neither a shard nor the merged file. With no shard
  (\<open>k = 0\<close>) it returns 0, creates no merged file and leaves the folder as it is. With
  at least one shard the merged file holds the header of shard 1 followed by the data
  rows of all shards, each shard once, shard by shard; for up to nine shards that order
  is the ascending order of the shard indices.
\<close>

theorem mergeCSVFiles_shards:
  fixes header :: "nat \<Rightarrow> string list" and rows :: "nat \<Rightarrow> string list list"
  assumes "distinct (map fst fs)"
    and "set (glob fs jobID) = (\<lambda>i. shardName jobID (int i)) ` {1..k}"
    and "\<forall>i \<in> {1..k}. map_of fs (shardName jobID (int i)) = Some (Records (header i # rows i))"
    and "creatable (jobID @ ''.csv'')"
    and "mergeCSVFiles creatable fs jobID = ((n, err), fs')"
  shows "err = None \<and> n = (\<Sum>i = 1..k. int (length (rows i))) \<and>
     (\<forall>i \<in> {1..k}. map_of fs' (shardName jobID (int i)) = None) \<and>
     (\<forall>name. name \<noteq> jobID @ ''.csv'' \<and> \<not> matchesPattern jobID name \<longrightarrow>
        map_of fs' name = map_of fs name) \<and>
     (k = 0 \<longrightarrow> fs' = fs) \<and>
     (1 \<le> k \<longrightarrow>
        (\<exists>order. distinct order \<and> set order = {1..k} \<and> hd order = 1 \<and>
           map_of fs' (jobID @ ''.csv'') =
             Some (Records (header 1 # concat (map rows order))))) \<and>
     (1 \<le> k \<and> k \<le> 9 \<longrightarrow>
        map_of fs' (jobID @ ''.csv'') =
          Some (Records (header 1 # concat (map rows [1..<Suc k]))))"
proof (cases "k = 0")
  case True
  with assms(2) have "glob fs jobID = []" by simp
  from mergeCSVFiles_no_shards [OF this, of creatable] assms(5) True
  show ?thesis by simp
next
  case False
  then have k: "1 \<le> k" by simp
  let ?name = "\<lambda>i. shardName jobID (int i)"
  let ?out = "jobID @ ''.csv''"
  from mergeCSVFiles_general [where header = header and rows = rows and fs = fs
      and creatable = creatable and jobID = jobID and k = k, OF assms(1-4) k]
  obtain order where o: "map ?name order = sort (glob fs jobID)"
    "distinct order" "set order = {1..k}" "hd order = 1"
    and m: "mergeCSVFiles creatable fs jobID =
             ((\<Sum>i = 1..k. int (length (rows i)), None),
              foldl (\<lambda>f m. removeFile m f)
                (writeFile ?out (Records (header 1 # concat (map rows order)))
                   (writeFile ?out (Records []) fs))
                (sort (glob fs jobID)))"
    by blast
  from m assms(5) have e: "err = None" and n: "n = (\<Sum>i = 1..k. int (length (rows i)))"
    and fs': "fs' = foldl (\<lambda>f m. removeFile m f)
                (writeFile ?out (Records (header 1 # concat (map rows order)))
                   (writeFile ?out (Records []) fs))
                (sort (glob fs jobID))"
    by simp_all
  have out: "?out \<notin> ?name ` {1..k}"
    using shardName_matches [of jobID] output_not_matches [of jobID] by auto
  have del: "\<forall>i \<in> {1..k}. map_of fs' (?name i) = None"
    by (simp add: fs' map_of_removeFiles assms(2))
  have merged: "map_of fs' ?out = Some (Records (header 1 # concat (map rows order)))"
    using out by (simp add: fs' map_of_removeFiles assms(2) map_of_writeFile)
  have frame: "\<forall>name. name \<noteq> ?out \<and> \<not> matchesPattern jobID name \<longrightarrow>
        map_of fs' name = map_of fs name"
  proof (intro allI impI)
    fix name assume a: "name \<noteq> ?out \<and> \<not> matchesPattern jobID name"
    then have "name \<notin> ?name ` {1..k}"
      using shardName_matches [of jobID] by auto
    with a show "map_of fs' name = map_of fs name"
      by (simp add: fs' map_of_removeFiles assms(2) map_of_writeFile)
  qed
  have ex: "\<exists>order. distinct order \<and> set order = {1..k} \<and> hd order = 1 \<and>
           map_of fs' ?out = Some (Records (header 1 # concat (map rows order)))"
    using o(2,3,4) merged by blast
  have nine: "map_of fs' ?out = Some (Records (header 1 # concat (map rows [1..<Suc k])))"
    if "k \<le> 9"
    using single_digit_order [OF that o(1,2,3)] merged by simp
  show ?thesis
    using e n del frame False ex nine by simp
qed


text \<open>
  Claim C1 as stated fails on the code. With ten shards the merged file holds the rows
  of shard 10 before those of shard 2, since the matches are sorted as strings; with no
  shard there is no merged file.
\<close>

theorem mergeCSVFiles_counterexample:
  "map_of (snd (mergeCSVFiles (\<lambda>p. True) (exampleShards ''run'' 10) ''run'')) ''run.csv'' =
     Some (Records [[''title''], [''1''], [''10''], [''2''], [''3''], [''4''], [''5''],
                    [''6''], [''7''], [''8''], [''9'']]) \<and>
   map_of (snd (mergeCSVFiles (\<lambda>p. True) (exampleShards ''run'' 10) ''run'')) ''run.csv'' \<noteq>
     Some (Records [[''title''], [''1''], [''2''], [''3''], [''4''], [''5''],
                    [''6''], [''7''], [''8''], [''9''], [''10'']]) \<and>
   map_of (exampleShards ''run'' 10) (shardName ''run'' 2) = Some (Records [[''title''], [''2'']]) \<and>
   map_of (exampleShards ''run'' 10) (shardName ''run'' 10) = Some (Records [[''title''], [''10'']]) \<and>
   mergeCSVFiles (\<lambda>p. True) [] ''run'' = ((0, None), []) \<and>
   map_of (snd (mergeCSVFiles (\<lambda>p. True) [] ''run'')) ''run.csv'' = None"
  by code_simp

subsection \<open>An instance of the amended claim\<close>

lemma exampleShards_hyps:
  "distinct (map fst (exampleShards ''run'' 3))"
  "set (glob (exampleShards ''run'' 3) ''run'') = (\<lambda>i. shardName ''run'' (int i)) ` {1..3}"
  "\<forall>i \<in> {1..3}. map_of (exampleShards ''run'' 3) (shardName ''run'' (int i)) =
      Some (Records ([''title''] # [[itoa i]]))"
  by code_simp+

theorem mergeCSVFiles_shards_witness:
  "fst (mergeCSVFiles (\<lambda>p. True) (exampleShards ''run'' 3) ''run'') = (3, None) \<and>
   map_of (snd (mergeCSVFiles (\<lambda>p. True) (exampleShards ''run'' 3) ''run'')) ''run.csv'' =
     Some (Records [[''title''], [''1''], [''2''], [''3'']]) \<and>
   map_of (snd (mergeCSVFiles (\<lambda>p. True) (exampleShards ''run'' 3) ''run'')) ''run_2.csv'' = None"
proof -
  obtain n err fs' where
    m: "mergeCSVFiles (\<lambda>p. True) (exampleShards ''run'' 3) ''run'' = ((n, err), fs')"
    by (metis surj_pair)
  have c: "(\<lambda>p. True) (''run'' @ ''.csv'')" by simp
  have rows: "concat (map (\<lambda>i. [[itoa i]]) [1..<Suc 3]) = [[''1''], [''2''], [''3'']]"
    by code_simp
  have total: "(\<Sum>i = 1..3. int (length [[itoa i]])) = 3"
    by simp
  have name2: "shardName ''run'' (int 2) = ''run_2.csv''"
    by code_simp
  have two: "(2::nat) \<in> {1..3}" and three: "(1::nat) \<le> 3 \<and> (3::nat) \<le> 9"
    by simp_all
  note t = mergeCSVFiles_shards [where header = "\<lambda>i. [''title'']" and rows = "\<lambda>i. [[itoa i]]"
      and creatable = "\<lambda>p. True", OF exampleShards_hyps c m]
  note t1 = t [THEN conjunct1]
  note t2 = t [THEN conjunct2, THEN conjunct1]
  note t3 = t [THEN conjunct2, THEN conjunct2, THEN conjunct1]
  note t7 = t [THEN conjunct2, THEN conjunct2, THEN conjunct2, THEN conjunct2,
                THEN conjunct2, THEN conjunct2]
  from t2 have 2: "n = 3" by (simp only: total)
  from bspec [OF t3 two] have 3: "map_of fs' ''run_2.csv'' = None"
    by (simp only: name2)
  from mp [OF t7 three] have 4: "map_of fs' ''run.csv'' =
      Some (Records [[''title''], [''1''], [''2''], [''3'']])"
    by (simp only: rows append.simps)
  from m t1 2 3 4 show ?thesis by simp
qed

section \<open>Properties of the scheduling loop\<close>

subsection \<open>The conversion of a duration to seconds\<close>

lemma roundHalfEven_int [simp]: "roundHalfEven (of_int m) = m"
  by (simp add: roundHalfEven_def)

lemma roundHalfEven_ge: "\<lfloor>z\<rfloor> \<le> roundHalfEven z"
  by (simp add: roundHalfEven_def Let_def)

lemma roundHalfEven_err: "\<bar>of_int (roundHalfEven z) - z\<bar> \<le> 1 / 2"
  unfolding roundHalfEven_def Let_def
  by (auto; linarith)

lemma floor_log_bounds:
  assumes "0 < x"
  shows "2 powi \<lfloor>log 2 x\<rfloor> \<le> x" and "x < 2 powi (\<lfloor>log 2 x\<rfloor> + 1)"
proof -
  from floor_log_eq_powr_iff [of x 2 "\<lfloor>log 2 x\<rfloor>"] assms
  have "2 powr of_int \<lfloor>log 2 x\<rfloor> \<le> x \<and> x < 2 powr of_int (\<lfloor>log 2 x\<rfloor> + 1)"
    by simp
  then show "2 powi \<lfloor>log 2 x\<rfloor> \<le> x" and "x < 2 powi (\<lfloor>log 2 x\<rfloor> + 1)"
    by (simp_all only: powr_real_of_int' [of 2, simplified])
qed

lemma floor_log_less:
  assumes "0 < x" and "x < 2 powi k"
  shows "\<lfloor>log 2 x\<rfloor> < k"
proof (rule ccontr)
  assume "\<not> \<lfloor>log 2 x\<rfloor> < k"
  then have "k \<le> \<lfloor>log 2 x\<rfloor>" by simp
  then have "(2::real) powi k \<le> 2 powi \<lfloor>log 2 x\<rfloor>"
    by (intro power_int_increasing) simp_all
  also have "\<dots> \<le> x" using assms(1) by (rule floor_log_bounds)
  finally show False using assms(2) by simp
qed

lemma floor_log_nonneg:
  assumes "1 \<le> x"
  shows "0 \<le> \<lfloor>log 2 x\<rfloor>"
  using assms by simp

lemma ulp_inverse:
  assumes "e \<le> 52"
  shows "(2::real) powi (e - 52) = 1 / 2 ^ nat (52 - e)"
proof -
  have "(2::real) powi (e - 52) = 2 powi (- (52 - e))" by simp
  also have "\<dots> = inverse (2 powi (52 - e))" by (simp only: power_int_minus)
  also have "(2::real) powi (52 - e) = 2 ^ nat (52 - e)"
    using assms by (simp add: power_int_def)
  finally show ?thesis by (simp add: inverse_eq_divide)
qed

text \<open>The rounding error is at most half a unit in the last place.\<close>

lemma roundFloat64_err:
  assumes "0 < x" and "x < 2 powi k"
  shows "\<bar>roundFloat64 x - x\<bar> \<le> 2 powi (k - 54)"
proof -
  define e where "e = \<lfloor>log 2 x\<rfloor>"
  define ulp :: real where "ulp = 2 powi (e - 52)"
  define a :: real where "a = of_int (roundHalfEven (x / ulp))"
  have u0: "0 < ulp" by (simp add: ulp_def)
  have r: "roundFloat64 x = ulp * a"
    using assms(1) by (simp add: roundFloat64_def Let_def e_def ulp_def a_def)
  have "\<bar>a - x / ulp\<bar> \<le> 1 / 2"
    unfolding a_def by (rule roundHalfEven_err)
  then have "ulp * \<bar>a - x / ulp\<bar> \<le> ulp * (1 / 2)"
    using u0 by (intro mult_left_mono) simp_all
  moreover have "ulp * a - x = ulp * (a - x / ulp)"
    using u0 by (simp add: field_simps)
  then have "\<bar>ulp * a - x\<bar> = ulp * \<bar>a - x / ulp\<bar>"
    using u0 by (simp only: abs_mult abs_of_pos)
  ultimately have h: "\<bar>roundFloat64 x - x\<bar> \<le> ulp / 2"
    by (simp add: r)
  have "e < k" unfolding e_def using assms by (rule floor_log_less)
  then have "e - 53 \<le> k - 54" by simp
  then have "(2::real) powi (e - 53) \<le> 2 powi (k - 54)"
    by (intro power_int_increasing) simp_all
  moreover have "ulp / 2 = 2 powi (e - 53)"
  proof -
    have "(2::real) powi (e - 52) = 2 powi ((e - 53) + 1)" by simp
    also have "\<dots> = 2 powi (e - 53) * 2"
      by (subst power_int_add) simp_all
    finally show ?thesis by (simp add: ulp_def)
  qed
  ultimately show ?thesis using h by linarith
qed

lemma roundFloat64_nonneg:
  assumes "0 \<le> x"
  shows "0 \<le> roundFloat64 x"
proof (cases "x = 0")
  case True
  then show ?thesis by (simp add: roundFloat64_def)
next
  case False
  with assms have p: "0 < x" by simp
  define ulp :: real where "ulp = 2 powi (\<lfloor>log 2 x\<rfloor> - 52)"
  have u0: "0 < ulp" by (simp add: ulp_def)
  have "0 \<le> x / ulp" using p u0 by simp
  then have "0 \<le> \<lfloor>x / ulp\<rfloor>" by simp
  with roundHalfEven_ge [of "x / ulp"] have "0 \<le> roundHalfEven (x / ulp)" by linarith
  then show ?thesis
    using p u0 by (simp add: roundFloat64_def Let_def ulp_def)
qed

text \<open>A value at or above an integer below \<open>2^53\<close> is not rounded below it.\<close>

lemma roundFloat64_ge_int:
  assumes "1 \<le> s" and "of_int s \<le> y" and "y < 2 ^ 53"
  shows "of_int s \<le> roundFloat64 y"
proof -
  have y0: "0 < y" using assms by linarith
  define e where "e = \<lfloor>log 2 y\<rfloor>"
  define ulp :: real where "ulp = 2 powi (e - 52)"
  have u0: "0 < ulp" by (simp add: ulp_def)
  have r: "roundFloat64 y = ulp * of_int (roundHalfEven (y / ulp))"
    using y0 by (simp add: roundFloat64_def Let_def e_def ulp_def)
  have "y < 2 powi 53" using assms(3) by simp
  then have "e < 53" unfolding e_def using y0 by (intro floor_log_less)
  then have e52: "e \<le> 52" by simp
  define p where "p = nat (52 - e)"
  have ulp: "ulp = 1 / 2 ^ p"
    unfolding ulp_def p_def using e52 by (rule ulp_inverse)
  have "of_int (s * 2 ^ p) \<le> y / ulp"
    using assms(2) by (simp add: ulp mult_right_mono)
  then have "s * 2 ^ p \<le> \<lfloor>y / ulp\<rfloor>" by (simp add: le_floor_iff)
  with roundHalfEven_ge [of "y / ulp"] have "s * 2 ^ p \<le> roundHalfEven (y / ulp)" by linarith
  then have "(of_int (s * 2 ^ p) :: real) \<le> of_int (roundHalfEven (y / ulp))"
    by (simp only: of_int_le_iff)
  then have "ulp * of_int (s * 2 ^ p) \<le> ulp * of_int (roundHalfEven (y / ulp))"
    using u0 by (intro mult_left_mono) simp_all
  moreover have "ulp * of_int (s * 2 ^ p) = of_int s"
    by (simp add: ulp)
  ultimately show ?thesis unfolding r by (simp only:)
qed

text \<open>Integers below \<open>2^53\<close> are representable.\<close>

lemma roundFloat64_int:
  assumes "0 \<le> k" and "k < 2 ^ 53"
  shows "roundFloat64 (of_int k) = of_int k"
proof (cases "k = 0")
  case True
  then show ?thesis by (simp add: roundFloat64_def)
next
  case False
  with assms have k1: "1 \<le> k" by simp
  define y :: real where "y = of_int k"
  have y0: "0 < y" using k1 by (simp add: y_def)
  define e where "e = \<lfloor>log 2 y\<rfloor>"
  define ulp :: real where "ulp = 2 powi (e - 52)"
  have r: "roundFloat64 y = ulp * of_int (roundHalfEven (y / ulp))"
    using y0 by (simp add: roundFloat64_def Let_def e_def ulp_def)
  have "y < 2 ^ 53" using assms(2) unfolding y_def
    by (metis of_int_less_iff of_int_numeral of_int_power)
  then have "y < 2 powi 53" by simp
  then have "e < 53" unfolding e_def using y0 by (intro floor_log_less)
  then have e52: "e \<le> 52" by simp
  define p where "p = nat (52 - e)"
  have ulp: "ulp = 1 / 2 ^ p"
    unfolding ulp_def p_def using e52 by (rule ulp_inverse)
  have "y / ulp = of_int (k * 2 ^ p)" by (simp add: ulp y_def)
  then have "roundHalfEven (y / ulp) = k * 2 ^ p" by (simp only: roundHalfEven_int)
  then have "roundFloat64 y = ulp * of_int (k * 2 ^ p)" by (simp only: r)
  also have "\<dots> = of_int k" by (simp add: ulp)
  finally show ?thesis by (simp add: y_def)
qed


lemma abs_diff_le: "\<bar>a - b\<bar> \<le> c \<Longrightarrow> c = c' \<Longrightarrow> a \<le> b + (c'::real)"
  by linarith

lemma pow_facts:
  "(2::real) powi (- 54) = 1 / 2 ^ 54" "(2::real) powi (- 30) = 1 / 2 ^ 30"
  "(2::real) powi 0 = 1" "(2::real) powi 24 = 2 ^ 24"
  by (simp_all add: power_int_minus inverse_eq_divide)

text \<open>
  Below \<open>2^24\<close> seconds the conversion of a positive duration to seconds, cut to an
  integer, is the number of whole seconds.
\<close>

lemma Seconds_whole:
  assumes "0 < d" and "d < 2 ^ 24 * 1000000000"
  shows "truncateToInt (Seconds d) = d div 1000000000"
proof -
  define s where "s = d div 1000000000"
  define n where "n = d mod 1000000000"
  have s0: "0 \<le> s" using assms(1) by (simp add: s_def pos_imp_zdiv_nonneg_iff)
  have s24: "s < 2 ^ 24" using assms unfolding s_def
    by linarith
  have n0: "0 \<le> n" and n9: "n \<le> 999999999" by (simp_all add: n_def) 
  have sec: "goDiv d 1000000000 = s" using assms(1) by (simp add: goDiv_pos s_def)
  have nsec: "goMod d 1000000000 = n" using assms(1) by (simp add: goMod_pos n_def)
  have rs: "roundFloat64 (of_int s) = of_int s"
    using s0 s24 by (intro roundFloat64_int) simp_all
  have rn: "roundFloat64 (of_int n) = of_int n"
    using n0 n9 by (intro roundFloat64_int) simp_all
  define q where "q = roundFloat64 (of_int n / 1000000000)"
  have q0: "0 \<le> q" unfolding q_def using n0 by (intro roundFloat64_nonneg) simp
  have q1: "q \<le> 1 - 1 / 1000000000 + 1 / 2 ^ 54"
  proof (cases "n = 0")
    case True
    then show ?thesis by (simp add: q_def roundFloat64_def)
  next
    case False
    with n0 have "0 < (of_int n :: real) / 1000000000" by simp
    moreover have le: "(of_int n :: real) / 1000000000 \<le> 1 - 1 / 1000000000"
      using n9 by simp
    then have "(of_int n :: real) / 1000000000 < 2 powi 0" by simp
    ultimately have "\<bar>q - of_int n / 1000000000\<bar> \<le> 2 powi (0 - 54)"
      unfolding q_def by (rule roundFloat64_err)
    then have "q \<le> of_int n / 1000000000 + 1 / 2 ^ 54"
      by (rule abs_diff_le) (simp add: pow_facts)
    with le show ?thesis by linarith
  qed
  define y where "y = of_int s + q"
  have S: "Seconds d = roundFloat64 y"
    by (simp add: Seconds_def Let_def sec nsec rs rn q_def y_def)
  have "roundFloat64 y - of_int s \<in> {0..<1}"
  proof (cases "s = 0")
    case True
    then have yq: "y = q" by (simp add: y_def)
    show ?thesis
    proof (cases "q = 0")
      case True
      then show ?thesis using yq \<open>s = 0\<close> by (simp add: roundFloat64_def)
    next
      case False
      with q0 have "0 < q" by simp
      moreover from q1 have "q < 2 powi 0" by simp
      ultimately have "\<bar>roundFloat64 q - q\<bar> \<le> 2 powi (0 - 54)"
        by (rule roundFloat64_err)
      then have "roundFloat64 q \<le> q + 1 / 2 ^ 54"
        by (rule abs_diff_le) (simp add: pow_facts)
      with q1 have "roundFloat64 q < 1" by simp
      moreover have "0 \<le> roundFloat64 q" using q0 by (rule roundFloat64_nonneg)
      ultimately show ?thesis using yq \<open>s = 0\<close> by simp
    qed
  next
    case False
    with s0 have s1: "1 \<le> s" by simp
    have ys: "of_int s \<le> y" using q0 by (simp add: y_def)
    have "of_int s + 1 \<le> (2::real) ^ 24"
    proof -
      from s24 have "s + 1 \<le> 2 ^ 24" by simp
      then have "(of_int (s + 1) :: real) \<le> of_int (2 ^ 24)" by (simp only: of_int_le_iff)
      then show ?thesis by simp
    qed
    with q1 have y24: "y < 2 ^ 24" by (simp add: y_def)
    have y0: "0 < y" using ys s1 by linarith
    from y24 have "y < 2 powi 24" by (simp add: pow_facts)
    with y0 have "\<bar>roundFloat64 y - y\<bar> \<le> 2 powi (24 - 54)"
      by (rule roundFloat64_err)
    then have "roundFloat64 y \<le> y + 1 / 2 ^ 30"
      by (rule abs_diff_le) (simp add: pow_facts)
    with q1 have up: "roundFloat64 y < of_int s + 1" by (simp add: y_def)
    from y24 have "y < 2 ^ 53" by simp
    with s1 ys have "of_int s \<le> roundFloat64 y" by (rule roundFloat64_ge_int)
    with up show ?thesis by simp
  qed
  then have lo: "of_int s \<le> roundFloat64 y" and hi: "roundFloat64 y < of_int s + 1"
    by simp_all
  from lo s0 have "0 \<le> roundFloat64 y" by linarith
  moreover from lo hi have "\<lfloor>roundFloat64 y\<rfloor> = s" by (simp add: floor_eq_iff)
  ultimately show ?thesis
    by (simp add: truncateToInt_def S s_def)
qed

lemma roundHalfEven_up:
  assumes "of_int m - 1 / 2 < z" and "z < of_int m"
  shows "roundHalfEven z = m"
proof -
  have "\<lfloor>z\<rfloor> = m - 1"
    using assms by (simp add: floor_eq_iff)
  then show ?thesis
    using assms by (simp add: roundHalfEven_def Let_def)
qed

text \<open>
  From \<open>2^24\<close> seconds on the conversion can round up: a budget of \<open>2^24\<close> seconds and
  999999999 nanoseconds reads as \<open>2^24 + 1\<close> seconds.
\<close>

lemma Seconds_rounds_up:
  "truncateToInt (Seconds 16777216999999999) = 16777217"
proof -
  have sec: "goDiv 16777216999999999 1000000000 = 16777216"
    and nsec: "goMod 16777216999999999 1000000000 = 999999999"
    by (simp_all add: goMod_def goDiv_def)
  have rs: "roundFloat64 (of_int 16777216) = of_int 16777216"
    by (intro roundFloat64_int) simp_all
  have rn: "roundFloat64 (of_int 999999999) = of_int 999999999"
    by (intro roundFloat64_int) simp_all
  define q where "q = roundFloat64 (999999999 / 1000000000)"
  have "\<bar>q - 999999999 / 1000000000\<bar> \<le> 2 powi (0 - 54)"
    unfolding q_def by (rule roundFloat64_err) simp_all
  then have "\<bar>q - 999999999 / 1000000000\<bar> \<le> 1 / 2 ^ 54"
    by (simp only: diff_0 pow_facts)
  then have q1: "999999999 / 1000000000 - 1 / 2 ^ 54 \<le> q"
    and q2: "q \<le> 999999999 / 1000000000 + 1 / 2 ^ 54"
    by linarith+
  define y where "y = 16777216 + q"
  have S: "Seconds 16777216999999999 = roundFloat64 y"
    using rs rn by (simp add: Seconds_def Let_def sec nsec q_def y_def)
  have y1: "2 ^ 24 \<le> y" and y2: "y < 2 ^ 25"
    using q1 q2 by (simp_all add: y_def)
  have y0: "0 < y" using y1 by simp
  have "\<lfloor>log 2 y\<rfloor> = 24"
    using y0 y1 y2 by (simp add: floor_log_eq_powr_iff powr_real_of_int)
  then have r: "roundFloat64 y = 1 / 2 ^ 28 * of_int (roundHalfEven (y / (1 / 2 ^ 28)))"
    using y0 by (simp add: roundFloat64_def Let_def power_int_minus inverse_eq_divide)
  have "roundHalfEven (y / (1 / 2 ^ 28)) = 2 ^ 52 + 2 ^ 28"
    using q1 q2 by (intro roundHalfEven_up) (simp_all add: y_def)
  then have "roundFloat64 y = 16777217"
    by (simp add: r)
  then show ?thesis
    by (simp add: S truncateToInt_def)
qed

subsection \<open>The budget\<close>

lemma minimumRequired_eq:
  assumes s: "0 < seedCount"
    and b: "isInt64 (seedCount * 45 * max 1 depth + 120)"
  shows "minimumRequired fastMode seedCount depth cfgConcurrency =
     max 180 (seedCount * (if fastMode then 15 else 45) * max 1 depth
                div max 1 cfgConcurrency + 120)"
proof -
  define e :: int where "e = (if fastMode then 15 else 45)"
  define d where "d = max 1 depth"
  define c where "c = max 1 cfgConcurrency"
  have e: "0 < e" "e \<le> 45" by (simp_all add: e_def)
  have d: "1 \<le> d" by (simp add: d_def)
  have c: "0 < c" by (simp add: c_def)
  from b have top: "seedCount * 45 * d + 120 < 2 ^ 63"
    by (simp add: isInt64_def d_def)
  have se: "0 \<le> seedCount * e" using s e by simp
  have "seedCount * e \<le> seedCount * 45"
    using s e by (intro mult_left_mono) simp_all
  then have sed: "seedCount * e * d \<le> seedCount * 45 * d"
    using d by (intro mult_right_mono) simp_all
  have "seedCount * e * 1 \<le> seedCount * e * d"
    using se d by (intro mult_left_mono) simp_all
  then have se_le: "seedCount * e \<le> seedCount * e * d" by simp
  have sed0: "0 \<le> seedCount * e * d" using se d by simp
  have w1: "wrap64 (seedCount * e) = seedCount * e"
    using se se_le sed top by (intro wrap64_id) (simp add: isInt64_def)
  have w2: "wrap64 (seedCount * e * d) = seedCount * e * d"
    using sed0 sed top by (intro wrap64_id) (simp add: isInt64_def)
  have q0: "0 \<le> seedCount * e * d div c"
    using sed0 c by (simp add: pos_imp_zdiv_nonneg_iff)
  have "0 < seedCount * e * d"
    using s e d by simp
  then have q1: "seedCount * e * d div c \<le> seedCount * e * d"
    by (rule int_div_le_self)
  have w3: "wrap64 (seedCount * e * d div c + 120) = seedCount * e * d div c + 120"
    using q0 q1 sed top by (intro wrap64_id) (simp add: isInt64_def)
  have "minimumRequired fastMode seedCount depth cfgConcurrency =
      (let m = wrap64 (goDiv (wrap64 (wrap64 (seedCount * e) * d)) c + 120)
       in if m < 180 then 180 else m)"
    by (simp add: minimumRequired_def e_def d_def c_def Let_def)
  also have "\<dots> = max 180 (seedCount * e * d div c + 120)"
    by (simp add: w1 w2 goDiv_pos [OF sed0 c] w3 Let_def max_def)
  finally show ?thesis
    by (simp add: e_def d_def c_def)
qed


lemma allowedSeconds_eq:
  assumes "0 < seedCount"
    and "isInt64 (seedCount * 45 * max 1 depth + 120)"
  shows "allowedSeconds fastMode seedCount depth cfgConcurrency maxTime =
     (let nominalPerJob = (if fastMode then 15 else 45);
          minimum = max 180 (seedCount * nominalPerJob * max 1 depth
                               div max 1 cfgConcurrency + 120);
          budget = truncateToInt (Seconds maxTime)
      in if 0 < maxTime \<and> minimum \<le> budget then budget else minimum)"
proof -
  define m where "m = max 180 (seedCount * (if fastMode then 15 else 45) * max 1 depth
                               div max 1 cfgConcurrency + 120)"
  have "minimumRequired fastMode seedCount depth cfgConcurrency = m"
    unfolding m_def by (rule minimumRequired_eq [OF assms])
  then have "allowedSeconds fastMode seedCount depth cfgConcurrency maxTime =
      (if 0 < maxTime \<and> m \<le> truncateToInt (Seconds maxTime)
       then truncateToInt (Seconds maxTime) else m)"
    by (auto simp: allowedSeconds_def Let_def)
  then show ?thesis
    unfolding Let_def m_def .
qed

lemma dispatchTimeout_exact:
  assumes "0 \<le> seconds" and "seconds \<le> 9223372036"
  shows "dispatchTimeout seconds = seconds * 1000000000"
  unfolding dispatchTimeout_def
  using assms by (intro wrap64_id) (simp add: isInt64_def)

lemma Seconds_examples:
  "truncateToInt (Seconds (60 * 1000000000)) = 60"
  "truncateToInt (Seconds (200 * 1000000000)) = 200"
  by (simp_all add: Seconds_whole)

lemma allowedSeconds_examples:
  "allowedSeconds True 10 1 5 0 = 180"
  "allowedSeconds True 10 1 5 (60 * 1000000000) = 180"
  "allowedSeconds True 2 1 1 (60 * 1000000000) = 180"
  "allowedSeconds True 2 1 5 (60 * 1000000000) = 180"
  by (simp_all add: allowedSeconds_def minimumRequired_def wrap64_def goDiv_def Let_def
        Seconds_examples [simplified])

lemma scrapeJob_dispatch:
  assumes "update1 env = None" and "Keywords (Data job) \<noteq> []" and "setupMate env = None"
    and "seedJobs env = (n, None)" and "0 < n"
  shows "scrapeJob cfgConcurrency env job fs =
     (let working = job\<lparr>Status := StatusWorking\<rparr>;
          allowed = allowedSeconds (FastMode (Data job)) (int n) (Depth (Data job))
                      cfgConcurrency (MaxTime (Data job));
          start = [DoUpdate StatusWorking (Count job), DoNewWriter (JobID job) 50000,
                   DoSetupMate, DoCreateSeedJobs, DoSetSeedCount (int n), DoMonitorRun,
                   DoMateStart (dispatchTimeout allowed) (int n), DoCancel]
      in if (\<exists>e. mateStart env = Some e \<and> \<not> errorsIs e DeadlineExceeded \<and> \<not> errorsIs e Canceled)
         then (start @ [DoUpdate StatusFailed (Count job), DoCancel, DoWriterClose, DoMateClose],
               working\<lparr>Status := StatusFailed\<rparr>, mateStart env, runWrites env fs)
         else (let ((actualCount, mergeErr), fs') =
                     mergeCSVFiles (canCreate env) (runWrites env fs) (JobID job)
               in (start @ [DoWriterClose, DoCountWait, DoMerge (JobID job),
                            DoUpdate StatusOK actualCount, DoCancel, DoWriterClose, DoMateClose],
                   working\<lparr>Count := actualCount, Status := StatusOK\<rparr>, update2 env, fs')))"
  using assms
  by (cases "mateStart env")
     (simp_all add: scrapeJob_def finishRun_def Let_def split: prod.splits)

lemma scrapeJob_MateStart:
  assumes "update1 env = None" and "Keywords (Data job) \<noteq> []" and "setupMate env = None"
    and "seedJobs env = (n, None)" and "0 < n"
  shows "DoMateStart timeout k \<in> set (fst (scrapeJob cfgConcurrency env job fs)) \<longleftrightarrow>
           timeout = dispatchTimeout (allowedSeconds (FastMode (Data job)) (int n)
                       (Depth (Data job)) cfgConcurrency (MaxTime (Data job))) \<and>
           k = int n"
  unfolding scrapeJob_dispatch [OF assms]
  by (auto simp: Let_def split: prod.splits)

text \<open>
  Claim C2, amended. For a run with \<open>seedCount > 0\<close> seed jobs (and numbers small enough
  for 64-bit arithmetic), with 15 seconds per job in fast mode and 45 otherwise, the
  run's depth setting raised to 1 when smaller and the concurrency raised to 1 when
  smaller, the deadline is computed from
  \<open>minimum = seedCount * nominalPerJob * max(1, Depth) / max(1, Concurrency) + 120\<close> (an
  integer division) raised to 180: it is the caller's budget, read in seconds by
  \<^verbatim>\<open>int(MaxTime.Seconds())\<close>, when the caller gave a positive one and its seconds are at
  least the minimum, else the minimum. For a budget below \<open>2^24\<close> seconds (194 days) the
  seconds read are its whole seconds; from there on the reading can be one more (a
  budget of \<open>2^24\<close> seconds and 999999999 nanoseconds reads as \<open>2^24 + 1\<close> seconds). The
  deadline is never below 180. Ten seeds,
  concurrency 5, depth 1 in fast mode give 180 seconds, also with a caller budget of 60
  seconds. \<^verbatim>\<open>scrapeJob\<close> starts the dispatch engine once, with the timeout of that many
  seconds as a 64-bit number of nanoseconds: exactly the deadline when it is at most
  9223372036 seconds, and wrapped around beyond.
\<close>

theorem budget_deadline:
  assumes "0 < seedCount"
    and "isInt64 (seedCount * 45 * max 1 depth + 120)"
  shows "allowedSeconds fastMode seedCount depth cfgConcurrency maxTime =
     (let nominalPerJob = (if fastMode then 15 else 45);
          minimum = max 180 (seedCount * nominalPerJob * max 1 depth
                               div max 1 cfgConcurrency + 120);
          budget = truncateToInt (Seconds maxTime)
      in if 0 < maxTime \<and> minimum \<le> budget then budget else minimum) \<and>
     (0 < maxTime \<and> maxTime < 2 ^ 24 * 1000000000 \<longrightarrow>
        truncateToInt (Seconds maxTime) = maxTime div 1000000000) \<and>
     truncateToInt (Seconds 16777216999999999) = 16777217 \<and>
     180 \<le> allowedSeconds fastMode seedCount depth cfgConcurrency maxTime \<and>
     allowedSeconds True 10 1 5 0 = 180 \<and>
     allowedSeconds True 10 1 5 (60 * 1000000000) = 180 \<and>
     (update1 env = None \<and> Keywords (Data job) \<noteq> [] \<and> setupMate env = None \<and>
      seedJobs env = (n, None) \<and> 0 < n \<longrightarrow>
        (let allowed = allowedSeconds (FastMode (Data job)) (int n) (Depth (Data job))
                         cfgConcurrency (MaxTime (Data job))
         in (\<forall>timeout k.
               DoMateStart timeout k \<in> set (fst (scrapeJob cfgConcurrency env job fs)) \<longrightarrow>
                 k = int n \<and>
                 timeout = wrap64 (allowed * 1000000000) \<and>
                 (0 \<le> allowed \<and> allowed \<le> 9223372036 \<longrightarrow>
                    timeout = allowed * 1000000000)) \<and>
            (\<exists>timeout. DoMateStart timeout (int n)
                          \<in> set (fst (scrapeJob cfgConcurrency env job fs)))))"
proof -
  note eq = allowedSeconds_eq [OF assms, of fastMode cfgConcurrency maxTime]
  have whole: "0 < maxTime \<and> maxTime < 2 ^ 24 * 1000000000 \<longrightarrow>
        truncateToInt (Seconds maxTime) = maxTime div 1000000000"
    using Seconds_whole [of maxTime] by blast
  have lo: "180 \<le> allowedSeconds fastMode seedCount depth cfgConcurrency maxTime"
  proof -
    define m where "m = max 180 (seedCount * (if fastMode then 15 else 45) * max 1 depth
                               div max 1 cfgConcurrency + 120)"
    have "180 \<le> m" by (simp add: m_def)
    moreover have "allowedSeconds fastMode seedCount depth cfgConcurrency maxTime =
        (if 0 < maxTime \<and> m \<le> truncateToInt (Seconds maxTime)
         then truncateToInt (Seconds maxTime) else m)"
      unfolding eq Let_def m_def ..
    ultimately show ?thesis by simp
  qed
  note ex1 = allowedSeconds_examples(1)
  note ex2 = allowedSeconds_examples(2)
  have run: "(let allowed = allowedSeconds (FastMode (Data job)) (int n) (Depth (Data job))
                         cfgConcurrency (MaxTime (Data job))
         in (\<forall>timeout k.
               DoMateStart timeout k \<in> set (fst (scrapeJob cfgConcurrency env job fs)) \<longrightarrow>
                 k = int n \<and>
                 timeout = wrap64 (allowed * 1000000000) \<and>
                 (0 \<le> allowed \<and> allowed \<le> 9223372036 \<longrightarrow>
                    timeout = allowed * 1000000000)) \<and>
            (\<exists>timeout. DoMateStart timeout (int n)
                          \<in> set (fst (scrapeJob cfgConcurrency env job fs))))"
    if "update1 env = None \<and> Keywords (Data job) \<noteq> [] \<and> setupMate env = None \<and>
      seedJobs env = (n, None) \<and> 0 < n"
  proof -
    from that have a: "update1 env = None" "Keywords (Data job) \<noteq> []" "setupMate env = None"
      "seedJobs env = (n, None)" "0 < n" by simp_all
    define allowed where "allowed = allowedSeconds (FastMode (Data job))
        (int n) (Depth (Data job)) cfgConcurrency (MaxTime (Data job))"
    have w: "dispatchTimeout allowed = wrap64 (allowed * 1000000000)"
      by (simp add: dispatchTimeout_def)
    have x: "0 \<le> allowed \<and> allowed \<le> 9223372036 \<longrightarrow>
               dispatchTimeout allowed = allowed * 1000000000"
      using dispatchTimeout_exact [of allowed] by simp
    have m: "DoMateStart timeout k \<in> set (fst (scrapeJob cfgConcurrency env job fs)) \<longleftrightarrow>
               timeout = dispatchTimeout allowed \<and> k = int n" for timeout k
      unfolding allowed_def by (rule scrapeJob_MateStart [OF a])
    show ?thesis
      unfolding Let_def allowed_def [symmetric]
      using m w x by auto
  qed
  from eq whole Seconds_rounds_up lo ex1 ex2 run show ?thesis by blast
qed


lemma exampleOutcomes_fields:
  "update1 exampleOutcomes = None" "update2 exampleOutcomes = None"
  "setupMate exampleOutcomes = None" "seedJobs exampleOutcomes = (2, None)"
  "mateStart exampleOutcomes = Some DeadlineExceeded"
  "Keywords (Data exampleJob) \<noteq> []" "FastMode (Data exampleJob) = True"
  "Depth (Data exampleJob) = 1" "MaxTime (Data exampleJob) = 60 * 1000000000"
  "JobID exampleJob = ''run''" "Count exampleJob = 0"
  by (simp_all add: exampleOutcomes_def exampleJob_def)

theorem budget_deadline_witness:
  "allowedSeconds True 10 1 5 (200 * 1000000000) = 200 \<and>
   allowedSeconds True 10 1 5 (60 * 1000000000) = 180 \<and>
   DoMateStart (180 * 1000000000) 2 \<in> set (fst (scrapeJob 5 exampleOutcomes exampleJob []))"
proof -
  have p: "(0::int) < 10" by simp
  have b: "isInt64 (10 * 45 * max 1 1 + 120)" by (simp add: isInt64_def)
  have pre: "update1 exampleOutcomes = None \<and> Keywords (Data exampleJob) \<noteq> [] \<and>
      setupMate exampleOutcomes = None \<and> seedJobs exampleOutcomes = (2, None) \<and> (0::nat) < 2"
    by (simp add: exampleOutcomes_fields)
  have r: "(0::int) < 200 * 1000000000 \<and> (200 * 1000000000 :: int) < 2 ^ 24 * 1000000000"
    by simp
  note t = budget_deadline [where fastMode = True and cfgConcurrency = 5
      and maxTime = "200 * 1000000000" and env = exampleOutcomes
      and job = exampleJob and n = 2 and fs = "[]", OF p b]
  from t r have "truncateToInt (Seconds (200 * 1000000000)) = 200 * 1000000000 div 1000000000"
    by blast
  then have s: "truncateToInt (Seconds (200 * 1000000000)) = 200"
    by simp
  from t have "allowedSeconds True 10 1 5 (200 * 1000000000) =
       (let nominalPerJob = (if True then 15 else 45);
          minimum = max 180 (10 * nominalPerJob * max 1 1 div max 1 5 + 120);
          budget = truncateToInt (Seconds (200 * 1000000000))
        in if 0 < (200 * 1000000000 :: int) \<and> minimum \<le> budget then budget else minimum)"
    by (rule conjunct1)
  then have 1: "allowedSeconds True 10 1 5 (200 * 1000000000) = 200"
    unfolding s by (simp add: Let_def)
  from t have 2: "allowedSeconds True 10 1 5 (60 * 1000000000) = 180"
    by blast
  have a: "allowedSeconds (FastMode (Data exampleJob)) (int 2)
      (Depth (Data exampleJob)) 5 (MaxTime (Data exampleJob)) = 180"
    by (simp add: exampleOutcomes_fields allowedSeconds_examples [simplified])
  from t pre obtain timeout where
    d: "DoMateStart timeout (int 2) \<in> set (fst (scrapeJob 5 exampleOutcomes exampleJob []))"
    unfolding Let_def by blast
  with t pre have "timeout = 180 * 1000000000"
    unfolding Let_def a by auto
  with d 1 2 show ?thesis by simp
qed

text \<open>
  Claim C2 as stated fails on the code: the factor of the formula is the run's depth
  setting, not the page limit of the jobs. \<^verbatim>\<open>scrapeJob\<close> hands \<^verbatim>\<open>job.Data.Depth\<close> to
  \<^verbatim>\<open>CreateSeedJobs\<close>, which passes it on as page limit only when it is above 1, and
  \<^verbatim>\<open>WithSearchJobMaxPages\<close> takes it only up to 6. For the example run, with depth 1 and
  two keywords, the two fast-mode jobs have the page limit 6; with concurrency 1 the
  formula of the claim gives \<open>2 * 15 * 6 / 1 + 120 = 300\<close> seconds, and the engine is
  started with 180 seconds.
\<close>

lemma exampleSeeds:
  "map jobMaxPages
     (fst (fst (CreateSeedJobs exampleParseFloat 1 (\<lambda>n. ''uuid'') 10
        ((exampleArgs [''coffee'', ''bakery''])
           \<lparr>maxDepth := 1, geoCoordinates := ''40.0,-73.0''\<rparr>) exampleHeap))) =
   [Some 6, Some 6]"
  by code_simp

theorem budget_counterexample:
  "(let args = (exampleArgs (Keywords (Data exampleJob)))
                 \<lparr>maxDepth := Depth (Data exampleJob), geoCoordinates := ''40.0,-73.0''\<rparr>;
        jobs = fst (fst (CreateSeedJobs exampleParseFloat 1 (\<lambda>n. ''uuid'') 10 args exampleHeap))
    in Depth (Data exampleJob) = 1 \<and>
       map jobMaxPages jobs = [Some 6, Some 6] \<and>
       seedJobs exampleOutcomes = (length jobs, None) \<and>
       DoMateStart (180 * 1000000000) 2 \<in> set (fst (scrapeJob 1 exampleOutcomes exampleJob [])) \<and>
       max 180 (int (length jobs) * 15 * 6 div max 1 1 + 120) = 300)"
proof -
  have k: "Keywords (Data exampleJob) = [''coffee'', ''bakery'']" "Depth (Data exampleJob) = 1"
    by (simp_all add: exampleJob_def)
  define jobs where "jobs = fst (fst (CreateSeedJobs exampleParseFloat 1 (\<lambda>n. ''uuid'') 10
        ((exampleArgs [''coffee'', ''bakery''])
           \<lparr>maxDepth := 1, geoCoordinates := ''40.0,-73.0''\<rparr>) exampleHeap))"
  have m: "map jobMaxPages jobs = [Some 6, Some 6]"
    unfolding jobs_def by (rule exampleSeeds)
  then have "length (map jobMaxPages jobs) = 2" by simp
  then have l: "length jobs = 2" by simp
  have two: "(0::nat) < 2" by simp
  have a: "allowedSeconds (FastMode (Data exampleJob)) 2
      (Depth (Data exampleJob)) 1 (MaxTime (Data exampleJob)) = 180"
    by (simp add: exampleOutcomes_fields allowedSeconds_examples [simplified])
  have d: "DoMateStart (180 * 1000000000) 2 \<in> set (fst (scrapeJob 1 exampleOutcomes exampleJob []))"
    using scrapeJob_MateStart [where timeout = "180 * 1000000000" and k = 2
        and cfgConcurrency = 1 and fs = "[]",
        OF exampleOutcomes_fields(1) exampleOutcomes_fields(6)
        exampleOutcomes_fields(3) exampleOutcomes_fields(4) two]
    by (simp add: a dispatchTimeout_def wrap64_def)
  show ?thesis
    unfolding Let_def k jobs_def [symmetric]
    using m l d by (simp add: exampleOutcomes_fields)
qed





text \<open>
  Claim C10. For a run with an empty keyword list, once the first storage update has
  succeeded, \<^verbatim>\<open>scrapeJob\<close> updates the storage with status working, then with status
  failed, and returns the second update's result, leaving the data folder as it is.
  When the first update fails it returns that error at once. Either way it does nothing
  but storage updates (no writer, no shard file, no merger), and the status is never
  ok.
\<close>

theorem scrapeJob_empty_keywords:
  assumes "Keywords (Data job) = []"
  shows "(update1 env = None \<longrightarrow>
            scrapeJob cfgConcurrency env job fs =
              ([DoUpdate StatusWorking (Count job), DoUpdate StatusFailed (Count job)],
               job\<lparr>Status := StatusFailed\<rparr>, update2 env, fs)) \<and>
         (\<forall>e. update1 env = Some e \<longrightarrow>
            scrapeJob cfgConcurrency env job fs =
              ([DoUpdate StatusWorking (Count job)], job\<lparr>Status := StatusWorking\<rparr>,
               Some e, fs)) \<and>
         (\<forall>a \<in> set (fst (scrapeJob cfgConcurrency env job fs)). \<exists>s c. a = DoUpdate s c) \<and>
         Status (fst (snd (scrapeJob cfgConcurrency env job fs))) \<noteq> StatusOK"
  using assms
  by (cases "update1 env") (simp_all add: scrapeJob_def Let_def)

theorem scrapeJob_empty_keywords_witness:
  "scrapeJob 5 exampleOutcomes (exampleJob\<lparr>Data := (Data exampleJob)\<lparr>Keywords := []\<rparr>\<rparr>)
     (exampleShards ''old'' 1) =
     ([DoUpdate StatusWorking 0, DoUpdate StatusFailed 0],
      exampleJob\<lparr>Data := (Data exampleJob)\<lparr>Keywords := []\<rparr>, Status := StatusFailed\<rparr>,
      None, exampleShards ''old'' 1)"
proof -
  have k: "Keywords (Data (exampleJob\<lparr>Data := (Data exampleJob)\<lparr>Keywords := []\<rparr>\<rparr>)) = []"
    by simp
  from scrapeJob_empty_keywords [OF k, of exampleOutcomes 5 "exampleShards ''old'' 1"]
  show ?thesis
    by (simp add: exampleOutcomes_fields)
qed

section \<open>Properties of the seed builder\<close>







text \<open>
  White space is trimmed as \<^verbatim>\<open>strings.TrimSpace\<close> does: a line holding only a no-break
  space (U+00A0, the bytes C2 A0) is blank, an em space (U+2003) after a query is removed,
  and a lone byte A0, which is not valid UTF-8, is kept.
\<close>

lemma TrimSpace_examples:
  "TrimSpace [CHR 0xC2, CHR 0xA0] = [] \<and>
   TrimSpace ([CHR 0x09] @ '' tea'' @ [CHR 0xE2, CHR 0x80, CHR 0x83, CHR 0x0D]) = ''tea'' \<and>
   TrimSpace [CHR 0xA0, CHR ''t''] = [CHR 0xA0, CHR ''t'']"
  by code_simp



section \<open>Properties of the rotating writer\<close>

lemma dataRows_simps [simp]:
  "dataRows [] = 0" "dataRows [HeaderRow h] = 0"
  "dataRows (ls @ [DataRow r]) = Suc (dataRows ls)"
  by (simp_all add: dataRows_def)

lemma rotateW_inv:
  assumes "writerInv rowLimit s" and "0 < rowLimit"
  shows "writerInv rowLimit (snd (rotateW csvHeaders io p s))"
proof -
  obtain w d where s: "s = (w, d)" by (cases s)
  from assms(1) s have i: "limit w = rowLimit" "0 \<le> currentCount w" "currentCount w \<le> rowLimit"
    "withinCap rowLimit d"
    "\<And>name isOpen ls. currentFile w = Some (name, isOpen) \<Longrightarrow> d name = Some ls \<Longrightarrow>
        int (dataRows ls) \<le> currentCount w"
    by (simp_all add: writerInv_def)
  show ?thesis
    using i assms(2) unfolding s rotateW_def Let_def
    by (auto simp: writerInv_def withinCap_def split: option.splits prod.splits)
qed

lemma rotateW_ok:
  assumes "rotateW csvHeaders io p (w, d) = (None, w', d')"
  shows "currentCount w' = 0 \<and> fileIndex w' = fileIndex w + 1 \<and> limit w' = limit w \<and>
     baseFileName w' = baseFileName w \<and>
     currentFile w' = Some (shardName (baseFileName w) (fileIndex w), True) \<and>
     (\<exists>ls. d' (shardName (baseFileName w) (fileIndex w)) = Some ls \<and> dataRows ls = 0) \<and>
     (\<forall>name. name \<noteq> shardName (baseFileName w) (fileIndex w) \<longrightarrow> d' name = d name)"
  using assms unfolding rotateW_def Let_def
  by (auto split: option.splits prod.splits if_splits)


lemma ensureShard_inv:
  assumes "writerInv rowLimit s" and "0 < rowLimit"
  shows "writerInv rowLimit (snd (ensureShard csvHeaders io p s))"
proof -
  obtain e1 s1 where r1: "rotateW csvHeaders io p s = (e1, s1)"
    by (cases "rotateW csvHeaders io p s")
  have i1: "writerInv rowLimit s1"
    using rotateW_inv [OF assms, of csvHeaders io p] r1 by simp
  obtain e2 s2 where r2: "rotateW csvHeaders io p s1 = (e2, s2)"
    by (cases "rotateW csvHeaders io p s1")
  have i2: "writerInv rowLimit s2"
    using rotateW_inv [OF i1 assms(2), of csvHeaders io p] r2 by simp
  show ?thesis
    using assms(1) i1 i2 r1 r2
    by (auto simp: ensureShard_def Let_def)
qed

lemma ensureShard_ok:
  assumes "ensureShard csvHeaders io p (w, d) = (None, w', d')" and "0 < limit w"
  shows "limit w' = limit w \<and> baseFileName w' = baseFileName w \<and>
     (if currentFile w = None \<or> limit w \<le> currentCount w
      then currentCount w' = 0 \<and> fileIndex w' = fileIndex w + 1 \<and>
           currentFile w' = Some (shardName (baseFileName w) (fileIndex w), True) \<and>
           (\<exists>ls. d' (shardName (baseFileName w) (fileIndex w)) = Some ls \<and> dataRows ls = 0) \<and>
           (\<forall>name. name \<noteq> shardName (baseFileName w) (fileIndex w) \<longrightarrow> d' name = d name)
      else w' = w \<and> d' = d)"
proof (cases "currentFile w = None")
  case True
  obtain e1 w1 d1 where r1: "rotateW csvHeaders io p (w, d) = (e1, w1, d1)"
    by (metis surj_pair)
  show ?thesis
  proof (cases e1)
    case None
    note ok = rotateW_ok [OF r1 [unfolded None]]
    then have "\<not> limit w1 \<le> currentCount w1" using assms(2) by simp
    with assms(1) True r1 None have "w' = w1" "d' = d1"
      by (simp_all add: ensureShard_def Let_def)
    with ok True show ?thesis by simp
  next
    case (Some e)
    with assms(1) True r1 show ?thesis
      by (simp add: ensureShard_def Let_def)
  qed
next
  case False
  show ?thesis
  proof (cases "limit w \<le> currentCount w")
    case True
    with assms(1) False have r: "rotateW csvHeaders io p (w, d) = (None, w', d')"
      by (simp add: ensureShard_def Let_def)
    from rotateW_ok [OF r] True show ?thesis by simp
  next
    case nl: False
    with assms(1) False show ?thesis
      by (simp add: ensureShard_def Let_def)
  qed
qed

lemma writeRecord_inv:
  assumes "writerInv rowLimit s" and "currentCount (fst s) < rowLimit"
  shows "writerInv rowLimit (snd (writeRecord csvRow io p s))"
proof -
  obtain w d where s: "s = (w, d)" by (cases s)
  from assms s have i: "limit w = rowLimit" "0 \<le> currentCount w" "currentCount w < rowLimit"
    "withinCap rowLimit d"
    "\<And>name isOpen ls. currentFile w = Some (name, isOpen) \<Longrightarrow> d name = Some ls \<Longrightarrow>
        int (dataRows ls) \<le> currentCount w"
    by (simp_all add: writerInv_def)
  show ?thesis
  proof (cases "fst (writeRecord csvRow io p s)")
    case (Some e)
    then have "snd (writeRecord csvRow io p s) = s"
      unfolding s writeRecord_def Let_def
      by (auto split: option.splits payload.splits if_splits)
    with assms(1) show ?thesis by simp
  next
    case None
    then obtain r name isOpen where
      f: "currentFile w = Some (name, isOpen)"
      and res: "snd (writeRecord csvRow io p s) =
        ((if OnWrite w then w\<lparr>currentCount := currentCount w + 1, notified := notified w + 1\<rparr>
          else w\<lparr>currentCount := currentCount w + 1\<rparr>), appendRow (name, isOpen) r d)"
      unfolding s writeRecord_def Let_def
      by (auto split: option.splits payload.splits if_splits)
    have cap: "withinCap rowLimit (appendRow (name, isOpen) r d)"
      using i(3,4) i(5) [OF f]
      by (auto simp: withinCap_def appendRow_def split: option.splits if_splits)
    have cur: "int (dataRows ls) \<le> currentCount w + 1"
      if "appendRow (name, isOpen) r d name = Some ls" for ls
      using that i(5) [OF f]
      by (auto simp: appendRow_def split: option.splits if_splits)
    show ?thesis
      unfolding res using i(1,2,3) cap cur f
      by (auto simp: writerInv_def)
  qed
qed


lemma writeOne_inv:
  assumes "writerInv rowLimit s" and "0 < rowLimit"
  shows "writerInv rowLimit (snd (writeOne csvRow csvHeaders io p s))"
proof -
  obtain w d where s: "s = (w, d)" by (cases s)
  obtain e w1 d1 where en: "ensureShard csvHeaders io p (w, d) = (e, w1, d1)"
    by (metis surj_pair)
  have i1: "writerInv rowLimit (w1, d1)"
    using ensureShard_inv [OF assms, of csvHeaders io p] en s by simp
  show ?thesis
  proof (cases e)
    case (Some err)
    with en i1 s show ?thesis by (simp add: writeOne_def)
  next
    case None
    from assms s have l: "limit w = rowLimit" by (simp add: writerInv_def)
    with assms(2) have "0 < limit w" by simp
    from ensureShard_ok [OF en [unfolded None] this] l assms(2)
    have "currentCount w1 < rowLimit"
      by (auto split: if_splits)
    then have "writerInv rowLimit (snd (writeRecord csvRow io p (w1, d1)))"
      by (intro writeRecord_inv [OF i1]) simp
    with en None s show ?thesis by (simp add: writeOne_def)
  qed
qed

lemma writeEntries_inv:
  "writerInv rowLimit s \<Longrightarrow> 0 < rowLimit \<Longrightarrow>
   writerInv rowLimit (snd (writeEntries csvRow csvHeaders io es s))"
proof (induction es arbitrary: s)
  case Nil
  then show ?case by simp
next
  case (Cons e es)
  obtain err s' where w: "writeOne csvRow csvHeaders io (PEntryPtr e) s = (err, s')"
    by (cases "writeOne csvRow csvHeaders io (PEntryPtr e) s")
  have i: "writerInv rowLimit s'"
    using writeOne_inv [OF Cons.prems, of csvRow csvHeaders io "PEntryPtr e"] w by simp
  show ?case
  proof (cases err)
    case None
    with w Cons.IH [OF i Cons.prems(2)] show ?thesis by simp
  next
    case (Some a)
    with w i show ?thesis by simp
  qed
qed

lemma Write_inv:
  "writerInv rowLimit s \<Longrightarrow> 0 < rowLimit \<Longrightarrow>
   writerInv rowLimit (snd (Write csvRow csvHeaders io p s))"
  by (cases p) (simp_all add: Write_def writeOne_inv writeEntries_inv)

lemma Close_inv: "writerInv rowLimit s \<Longrightarrow> writerInv rowLimit (snd (Close s))"
  by (cases s) (auto simp: Close_def writerInv_def split: option.splits)

lemma runExit_inv: "writerInv rowLimit s \<Longrightarrow> writerInv rowLimit (runExit s)"
  by (cases s) (auto simp: runExit_def writerInv_def split: option.splits)

lemma runCalls_inv:
  "writerInv rowLimit s \<Longrightarrow> 0 < rowLimit \<Longrightarrow>
   writerInv rowLimit (runCalls csvRow csvHeaders calls s)"
proof (induction calls arbitrary: s)
  case Nil
  then show ?case by simp
next
  case (Cons c calls)
  show ?case
  proof (cases c)
    case (CallWrite io p)
    with Cons.IH [OF Write_inv [OF Cons.prems, of csvRow csvHeaders io p] Cons.prems(2)]
    show ?thesis by simp
  next
    case CallClose
    with Cons.IH [OF Close_inv [OF Cons.prems(1)] Cons.prems(2)] show ?thesis by simp
  next
    case CallRunExit
    with Cons.IH [OF runExit_inv [OF Cons.prems(1)] Cons.prems(2)] show ?thesis by simp
  qed
qed

lemma NewRotatingCsvWriter_inv:
  "0 < rowLimit \<Longrightarrow> withinCap rowLimit d \<Longrightarrow>
   writerInv rowLimit (NewRotatingCsvWriter base rowLimit, d)"
  by (simp add: writerInv_def NewRotatingCsvWriter_def)

lemma writeOne_ok:
  assumes "writeOne csvRow csvHeaders io p (w, d) = (None, w', d')" and "0 < limit w"
  shows "if currentFile w = None \<or> limit w \<le> currentCount w
         then currentCount w' = 1 \<and> fileIndex w' = fileIndex w + 1 \<and>
              currentFile w' = Some (shardName (baseFileName w) (fileIndex w), True) \<and>
              (\<exists>ls. d' (shardName (baseFileName w) (fileIndex w)) = Some ls \<and> dataRows ls = 1) \<and>
              (\<forall>name. name \<noteq> shardName (baseFileName w) (fileIndex w) \<longrightarrow> d' name = d name)
         else currentCount w' = currentCount w + 1 \<and> fileIndex w' = fileIndex w \<and>
              currentFile w' = currentFile w \<and>
              (\<forall>name. Some name \<noteq> map_option fst (currentFile w) \<longrightarrow> d' name = d name)"
proof -
  obtain e w1 d1 where en: "ensureShard csvHeaders io p (w, d) = (e, w1, d1)"
    by (metis surj_pair)
  with assms(1) have e: "e = None"
    by (cases e) (simp_all add: writeOne_def)
  with en assms(1) have wr: "writeRecord csvRow io p (w1, d1) = (None, w', d')"
    by (simp add: writeOne_def)
  note es = ensureShard_ok [OF en [unfolded e] assms(2)]
  from wr obtain r f where
    f: "currentFile w1 = Some f"
    and w': "currentCount w' = currentCount w1 + 1" "fileIndex w' = fileIndex w1"
      "currentFile w' = currentFile w1"
    and d': "d' = appendRow f r d1"
    unfolding writeRecord_def Let_def
    by (auto split: option.splits payload.splits if_splits)
  show ?thesis
  proof (cases "currentFile w = None \<or> limit w \<le> currentCount w")
    case True
    with es have r: "currentCount w1 = 0" "fileIndex w1 = fileIndex w + 1"
      "currentFile w1 = Some (shardName (baseFileName w) (fileIndex w), True)"
      "\<exists>ls. d1 (shardName (baseFileName w) (fileIndex w)) = Some ls \<and> dataRows ls = 0"
      "\<forall>name. name \<noteq> shardName (baseFileName w) (fileIndex w) \<longrightarrow> d1 name = d name"
      by simp_all
    from r(3) f have feq: "f = (shardName (baseFileName w) (fileIndex w), True)" by simp
    from r(4) have "\<exists>ls. d' (shardName (baseFileName w) (fileIndex w)) = Some ls \<and> dataRows ls = 1"
      by (auto simp: d' feq appendRow_def)
    moreover have "\<forall>name. name \<noteq> shardName (baseFileName w) (fileIndex w) \<longrightarrow> d' name = d name"
      using r(5) by (auto simp: d' feq appendRow_def split: option.splits)
    ultimately show ?thesis
      using True w' r(1,2,3) by simp
  next
    case False
    with es have same: "w1 = w" "d1 = d" by simp_all
    have "\<forall>name. Some name \<noteq> map_option fst (currentFile w) \<longrightarrow> d' name = d name"
      using f by (auto simp: d' same appendRow_def split: option.splits)
    with False w' same show ?thesis by simp
  qed
qed


text \<open>
  Claim C9. Take a writer made by \<^verbatim>\<open>NewRotatingCsvWriter\<close> with a positive row limit (the
  web runner's is 50000), on a disk whose files are within the limit (an empty disk,
  say). After any sequence of \<^verbatim>\<open>Write\<close> and \<^verbatim>\<open>Close\<close> calls and exits of \<^verbatim>\<open>Run\<close>, with any
  payloads and any answers of the file system, every file on the disk holds at most
  the limit of data rows, the header row not counted. A successful \<^verbatim>\<open>writeOne\<close> on a
  writer with no open file, or whose count has reached the limit, puts its row into
  the next shard (a new file that then holds one data row) and leaves the count at 1;
  otherwise it adds one to the count and stays with the current file. A successful
  \<^verbatim>\<open>rotate\<close> sets the count to 0 and its new file holds no data row: the header is not
  counted.
\<close>

theorem shard_row_cap:
  assumes "0 < rowLimit" and "withinCap rowLimit d0"
  shows "(\<forall>name ls.
            snd (runCalls csvRow csvHeaders calls (NewRotatingCsvWriter base rowLimit, d0)) name
              = Some ls \<longrightarrow> int (dataRows ls) \<le> rowLimit) \<and>
         (\<forall>w d w' d'. limit w = rowLimit \<and>
            writeOne csvRow csvHeaders io p (w, d) = (None, w', d') \<longrightarrow>
            (if currentFile w = None \<or> limit w \<le> currentCount w
             then currentCount w' = 1 \<and> fileIndex w' = fileIndex w + 1 \<and>
                  currentFile w' = Some (shardName (baseFileName w) (fileIndex w), True) \<and>
                  (\<exists>ls. d' (shardName (baseFileName w) (fileIndex w)) = Some ls \<and>
                        dataRows ls = 1) \<and>
                  (\<forall>name. name \<noteq> shardName (baseFileName w) (fileIndex w) \<longrightarrow>
                     d' name = d name)
             else currentCount w' = currentCount w + 1 \<and> fileIndex w' = fileIndex w \<and>
                  currentFile w' = currentFile w \<and>
                  (\<forall>name. Some name \<noteq> map_option fst (currentFile w) \<longrightarrow>
                     d' name = d name))) \<and>
         (\<forall>w d w' d'. rotateW csvHeaders io p (w, d) = (None, w', d') \<longrightarrow>
            currentCount w' = 0 \<and> fileIndex w' = fileIndex w + 1 \<and>
            (\<exists>ls. d' (shardName (baseFileName w) (fileIndex w)) = Some ls \<and> dataRows ls = 0))"
proof -
  have inv: "writerInv rowLimit
      (runCalls csvRow csvHeaders calls (NewRotatingCsvWriter base rowLimit, d0))"
    by (intro runCalls_inv NewRotatingCsvWriter_inv assms)
  then have cap: "\<forall>name ls.
            snd (runCalls csvRow csvHeaders calls (NewRotatingCsvWriter base rowLimit, d0)) name
              = Some ls \<longrightarrow> int (dataRows ls) \<le> rowLimit"
    by (simp add: writerInv_def withinCap_def)
  have one: "if currentFile w = None \<or> limit w \<le> currentCount w
             then currentCount w' = 1 \<and> fileIndex w' = fileIndex w + 1 \<and>
                  currentFile w' = Some (shardName (baseFileName w) (fileIndex w), True) \<and>
                  (\<exists>ls. d' (shardName (baseFileName w) (fileIndex w)) = Some ls \<and>
                        dataRows ls = 1) \<and>
                  (\<forall>name. name \<noteq> shardName (baseFileName w) (fileIndex w) \<longrightarrow>
                     d' name = d name)
             else currentCount w' = currentCount w + 1 \<and> fileIndex w' = fileIndex w \<and>
                  currentFile w' = currentFile w \<and>
                  (\<forall>name. Some name \<noteq> map_option fst (currentFile w) \<longrightarrow>
                     d' name = d name)"
    if "limit w = rowLimit \<and> writeOne csvRow csvHeaders io p (w, d) = (None, w', d')"
    for w d w' d'
  proof -
    from that assms(1) have pos: "0 < limit w" by simp
    from that have wr: "writeOne csvRow csvHeaders io p (w, d) = (None, w', d')" by simp
    show ?thesis by (rule writeOne_ok [OF wr pos])
  qed
  have rot: "currentCount w' = 0 \<and> fileIndex w' = fileIndex w + 1 \<and>
            (\<exists>ls. d' (shardName (baseFileName w) (fileIndex w)) = Some ls \<and> dataRows ls = 0)"
    if "rotateW csvHeaders io p (w, d) = (None, w', d')" for w d w' d'
    using rotateW_ok [OF that] by simp
  from cap one rot show ?thesis by blast
qed

lemma example_calls:
  "map (snd (runCalls exampleRow exampleHeaders
          [CallWrite allOK (PEntries [exampleEntry ''a'', exampleEntry ''b'', exampleEntry ''c''])]
          (NewRotatingCsvWriter ''run'' 2, Map.empty)))
       [''run_1.csv'', ''run_2.csv'', ''run_3.csv''] =
     [Some [HeaderRow [''cid'', ''title'', ''address''], DataRow [''a'', ''title'', ''address''],
            DataRow [''b'', ''title'', ''address'']],
      Some [HeaderRow [''cid'', ''title'', ''address''], DataRow [''c'', ''title'', ''address'']],
      None]"
  by code_simp

theorem shard_row_cap_witness:
  "snd (runCalls exampleRow exampleHeaders
          [CallWrite allOK (PEntries [exampleEntry ''a'', exampleEntry ''b'', exampleEntry ''c''])]
          (NewRotatingCsvWriter ''run'' 2, Map.empty)) ''run_1.csv'' =
     Some [HeaderRow [''cid'', ''title'', ''address''], DataRow [''a'', ''title'', ''address''],
           DataRow [''b'', ''title'', ''address'']] \<and>
   int (dataRows [HeaderRow [''cid'', ''title'', ''address''],
                  DataRow [''a'', ''title'', ''address''],
                  DataRow [''b'', ''title'', ''address'']]) \<le> 2"
proof -
  have p: "(0::int) < 2" by simp
  have e: "withinCap 2 Map.empty" by (simp add: withinCap_def)
  have f: "snd (runCalls exampleRow exampleHeaders
          [CallWrite allOK (PEntries [exampleEntry ''a'', exampleEntry ''b'', exampleEntry ''c''])]
          (NewRotatingCsvWriter ''run'' 2, Map.empty)) ''run_1.csv'' =
     Some [HeaderRow [''cid'', ''title'', ''address''], DataRow [''a'', ''title'', ''address''],
           DataRow [''b'', ''title'', ''address'']]"
    using example_calls by simp
  from shard_row_cap [OF p e, THEN conjunct1, rule_format, OF f] f
  show ?thesis by simp
qed

end
